theory Spec2Isabelle
  imports Complex_Main
begin

section \<open>JavaScript values and string operations\<close>

text \<open>
  The handlers of \<^verbatim>\<open>index.js\<close> receive loosely typed JSON: a request body field or
  a socket payload may be missing, a string, or anything else.  A JavaScript string is a
  sequence of UTF-16 code units; a code unit is a natural number here (below \<open>0x10000\<close> in
  every string that occurs).  A string literal of the source is written \<open>str ''...''\<close>.
  Numbers other than the results of \<open>Math.random\<close> are integers (no fractions, no NaN);
  objects and arrays are one opaque value.
\<close>

type_synonym code_unit = nat
type_synonym js_string = "code_unit list"

definition str :: "string \<Rightarrow> js_string" where
  "str s = map of_char s"

datatype js_value = JUndefined | JNull | JBool bool | JNum int | JStr js_string | JObject

datatype js_error = TypeError | StoreError | DuplicateCode

text \<open>Truthiness, as tested by \<^verbatim>\<open>!x\<close> and \<^verbatim>\<open>a && b\<close>.\<close>

fun truthy :: "js_value \<Rightarrow> bool" where
  "truthy JUndefined = False"
| "truthy JNull = False"
| "truthy (JBool b) = b"
| "truthy (JNum n) = (n \<noteq> 0)"
| "truthy (JStr s) = (s \<noteq> [])"
| "truthy JObject = True"

text \<open>
  \<^verbatim>\<open>String.prototype.toUpperCase\<close>, exact on ASCII: the letters \<open>a\<close> to \<open>z\<close> go to
  \<open>A\<close> to \<open>Z\<close>.  A code unit outside ASCII is left as it is, which is not what the
  Unicode case mapping does for the letters there.
\<close>

definition upper_char :: "code_unit \<Rightarrow> code_unit" where
  "upper_char c = (if 0x61 \<le> c \<and> c \<le> 0x7A then c - 0x20 else c)"

definition toUpperCase :: "js_string \<Rightarrow> js_string" where
  "toUpperCase s = map upper_char s"

text \<open>
  The white space and the line terminators of ECMAScript, which \<open>trim\<close> removes: TAB, LF,
  VT, FF, CR, SPACE, NO-BREAK SPACE, the other space separators of Unicode (U+1680,
  U+2000 to U+200A, U+202F, U+205F, U+3000), the line and paragraph separators (U+2028,
  U+2029) and the byte order mark (U+FEFF).  Each is one code unit.
\<close>

definition is_space :: "code_unit \<Rightarrow> bool" where
  "is_space c = (c \<in> set [0x09, 0x0A, 0x0B, 0x0C, 0x0D, 0x20, 0xA0, 0x1680,
                          0x2000, 0x2001, 0x2002, 0x2003, 0x2004, 0x2005, 0x2006, 0x2007,
                          0x2008, 0x2009, 0x200A, 0x2028, 0x2029, 0x202F, 0x205F, 0x3000,
                          0xFEFF])"

text \<open>\<^verbatim>\<open>String.prototype.trim\<close>: white space is removed at both ends.\<close>

definition trim :: "js_string \<Rightarrow> js_string" where
  "trim s = rev (dropWhile is_space (rev (dropWhile is_space s)))"

text \<open>
  Calling a string method on a value: on anything but a string the property is missing
  and the call throws a \<open>TypeError\<close>.
\<close>

fun call_trim :: "js_value \<Rightarrow> js_error + js_string" where
  "call_trim (JStr s) = Inr (trim s)"
| "call_trim _ = Inl TypeError"

fun call_toUpperCase :: "js_value \<Rightarrow> js_error + js_string" where
  "call_toUpperCase (JStr s) = Inr (toUpperCase s)"
| "call_toUpperCase _ = Inl TypeError"

section \<open>Binary64 arithmetic\<close>

text \<open>
  A JavaScript number is an IEEE 754 binary64 value.  A finite one is a real number, and
  an arithmetic operation yields the exact result rounded to the nearest binary64 value,
  a tie going to the one with the even significand.  The binary64 values around a
  positive \<open>x\<close> are \<open>ulp x\<close> apart: \<open>2\<^sup>e\<^sup>-\<^sup>5\<^sup>2\<close> when \<open>2\<^sup>e \<le> x < 2\<^sup>e\<^sup>+\<^sup>1\<close> with
  \<open>-1022 \<le> e \<le> 1023\<close>, and \<open>2\<^sup>-\<^sup>1\<^sup>0\<^sup>7\<^sup>4\<close> below \<open>2\<^sup>-\<^sup>1\<^sup>0\<^sup>2\<^sup>2\<close>.  Overflow to infinity is
  left out: no product in this program comes near it.
\<close>

text \<open>The search for the power of two at or below \<open>x\<close>, upwards from 1.\<close>

fun ulp_up :: "nat \<Rightarrow> real \<Rightarrow> real \<Rightarrow> real" where
  "ulp_up 0 p x = p / 2 ^ 52"
| "ulp_up (Suc n) p x = (if x < 2 * p then p / 2 ^ 52 else ulp_up n (2 * p) x)"

text \<open>The same search downwards from one half, ending in the subnormal range.\<close>

fun ulp_down :: "nat \<Rightarrow> real \<Rightarrow> real \<Rightarrow> real" where
  "ulp_down 0 p x = p / 2 ^ 52"
| "ulp_down (Suc n) p x = (if p \<le> x then p / 2 ^ 52 else ulp_down n (p / 2) x)"

definition ulp :: "real \<Rightarrow> real" where
  "ulp x = (if 1 \<le> x then ulp_up 1023 1 x else ulp_down 1021 (1 / 2) x)"

definition round_half_even :: "real \<Rightarrow> int" where
  "round_half_even q =
     (if q - of_int \<lfloor>q\<rfloor> < 1 / 2 then \<lfloor>q\<rfloor>
      else if 1 / 2 < q - of_int \<lfloor>q\<rfloor> then \<lfloor>q\<rfloor> + 1
      else if even \<lfloor>q\<rfloor> then \<lfloor>q\<rfloor> else \<lfloor>q\<rfloor> + 1)"

definition round_binary64 :: "real \<Rightarrow> real" where
  "round_binary64 x =
     (if x = 0 then 0
      else sgn x * (of_int (round_half_even (\<bar>x\<bar> / ulp \<bar>x\<bar>)) * ulp \<bar>x\<bar>))"

text \<open>A real number is a binary64 value when rounding leaves it as it is.\<close>

definition is_binary64 :: "real \<Rightarrow> bool" where
  "is_binary64 x = (round_binary64 x = x)"

text \<open>The operator \<^verbatim>\<open>*\<close> on numbers.\<close>

definition times_binary64 :: "real \<Rightarrow> real \<Rightarrow> real" where
  "times_binary64 a b = round_binary64 (a * b)"

section \<open>Room code generator\<close>

text \<open>
  \<^verbatim>\<open>
  const genRoomCode = () => {
    const chars = 'ABCDEFGHIJKLMNOPQRSTUVWXYZ0123456789';
    let result = '';
    for (let i = 0; i < 6; i++) {
      result += chars.charAt(Math.floor(Math.random() * chars.length));
    }
    return result;
  };
  \<close>
  \<open>Math.random\<close> is a source of numbers: \<open>rng k\<close> is what its \<open>k\<close>-th coming call
  returns, and a function that draws \<open>n\<close> numbers hands back the source shifted by
  \<open>n\<close>.  ECMAScript promises a binary64 value with \<open>0 \<le> rng k < 1\<close>; the product with
  the length is the rounded binary64 product.
\<close>

type_synonym random_source = "nat \<Rightarrow> real"

definition chars :: js_string where
  "chars = str ''ABCDEFGHIJKLMNOPQRSTUVWXYZ0123456789''"

text \<open>\<^verbatim>\<open>String.prototype.charAt\<close>: the empty string outside the range.\<close>

definition charAt :: "js_string \<Rightarrow> int \<Rightarrow> js_string" where
  "charAt s i = (if 0 \<le> i \<and> i < int (length s) then [s ! nat i] else [])"

text \<open>The loop, by the number of rounds still to run.\<close>

fun genRoomCode_loop :: "nat \<Rightarrow> random_source \<Rightarrow> js_string \<Rightarrow> js_string" where
  "genRoomCode_loop 0 rng result = result"
| "genRoomCode_loop (Suc n) rng result =
     genRoomCode_loop n (\<lambda>k. rng (Suc k))
       (result @ charAt chars \<lfloor>times_binary64 (rng 0) (real (length chars))\<rfloor>)"

definition genRoomCode :: "random_source \<Rightarrow> js_string \<times> random_source" where
  "genRoomCode rng = (genRoomCode_loop 6 rng [], \<lambda>k. rng (k + 6))"

section \<open>Rooms and the store\<close>

type_synonym user_id = nat
type_synonym socket_id = nat

text \<open>
  Modelled from the spec: the Room schema (\<^verbatim>\<open>models/Room.js\<close> is not among the
  sources).  Section 3 of the specification gives a room its \<open>code\<close>, its name, its
  creator, its members and the canvas snapshot, which is absent until the first sync.
  Creation time is left out.
\<close>

record room =
  code :: js_string
  room_name :: js_string
  creator :: user_id
  members :: "user_id list"
  canvasData :: "js_string option"

text \<open>
  A drawing event as the client sends it, and the part of it that is relayed.  The
  source's field \<^verbatim>\<open>size\<close> is \<open>size'\<close> here.
\<close>

record stroke =
  prevX :: js_value
  prevY :: js_value
  currentX :: js_value
  currentY :: js_value
  color :: js_value
  size' :: js_value
  tool :: js_value

record drawing_data = stroke +
  roomCode :: js_value

datatype server_msg = CanvasData js_string | DrawingData stroke | ClearCanvas

text \<open>
  The world the handlers act on: the Room collection, the faults the store is going to
  have (one flag for each coming store operation, none once the list is used up), the
  live rooms of the socket server (room name to the connections in it, in joining order),
  the messages delivered to clients so far, and what \<^verbatim>\<open>console.error\<close> has printed.
\<close>

record world =
  rooms_db :: "room list"
  store_faults :: "bool list"
  adapter_rooms :: "js_string \<Rightarrow> socket_id list"
  outbox :: "(socket_id \<times> server_msg) list"
  console_errors :: "string list"

definition initial_world :: world where
  "initial_world = \<lparr>rooms_db = [], store_faults = [], adapter_rooms = (\<lambda>r. []),
                     outbox = [], console_errors = []\<rparr>"

definition console_error :: "string \<Rightarrow> world \<Rightarrow> world" where
  "console_error msg w = w\<lparr>console_errors := console_errors w @ [msg]\<rparr>"

subsection \<open>Store operations\<close>

text \<open>Every store operation first learns whether the store fails this time.\<close>

definition store_call :: "world \<Rightarrow> bool \<times> world" where
  "store_call w = (case store_faults w of
                     [] \<Rightarrow> (False, w)
                   | failed # rest \<Rightarrow> (failed, w\<lparr>store_faults := rest\<rparr>))"

text \<open>
  The first document with the given code, with its position.  Documents are only ever
  appended or replaced in place, so the position identifies a document as its
  \<^verbatim>\<open>_id\<close> does.
\<close>

fun find_room_from :: "nat \<Rightarrow> js_string \<Rightarrow> room list \<Rightarrow> (nat \<times> room) option" where
  "find_room_from i c [] = None"
| "find_room_from i c (r # rs) = (if code r = c then Some (i, r) else find_room_from (Suc i) c rs)"

definition find_room :: "js_string \<Rightarrow> room list \<Rightarrow> (nat \<times> room) option" where
  "find_room c rs = find_room_from 0 c rs"

text \<open>\<^verbatim>\<open>Room.findOne({ code: c })\<close>\<close>

definition Room_findOne :: "js_string \<Rightarrow> world \<Rightarrow> (js_error + (nat \<times> room) option) \<times> world" where
  "Room_findOne c w =
     (case store_call w of
        (True, w') \<Rightarrow> (Inl StoreError, w')
      | (False, w') \<Rightarrow> (Inr (find_room c (rooms_db w')), w'))"

text \<open>\<^verbatim>\<open>Room.find({})\<close>\<close>

definition Room_find_all :: "world \<Rightarrow> (js_error + room list) \<times> world" where
  "Room_find_all w =
     (case store_call w of
        (True, w') \<Rightarrow> (Inl StoreError, w')
      | (False, w') \<Rightarrow> (Inr (rooms_db w'), w'))"

text \<open>
  \<^verbatim>\<open>new Room(doc).save()\<close>.  Modelled from the spec: the unique index on \<open>code\<close>
  rejects a second document with a code already stored.
\<close>

definition Room_insert :: "room \<Rightarrow> world \<Rightarrow> (js_error + unit) \<times> world" where
  "Room_insert doc w =
     (case store_call w of
        (True, w') \<Rightarrow> (Inl StoreError, w')
      | (False, w') \<Rightarrow>
          if code doc \<in> set (map code (rooms_db w')) then (Inl DuplicateCode, w')
          else (Inr (), w'\<lparr>rooms_db := rooms_db w' @ [doc]\<rparr>))"

text \<open>\<^verbatim>\<open>room.save()\<close> on a document that was loaded from position \<open>i\<close>.\<close>

definition Room_save :: "nat \<Rightarrow> room \<Rightarrow> world \<Rightarrow> (js_error + unit) \<times> world" where
  "Room_save i doc w =
     (case store_call w of
        (True, w') \<Rightarrow> (Inl StoreError, w')
      | (False, w') \<Rightarrow> (Inr (), w'\<lparr>rooms_db := (rooms_db w')[i := doc]\<rparr>))"

text \<open>
  \<^verbatim>\<open>Room.findOneAndUpdate({ code: c }, { canvasData: d })\<close>, never an upsert: with no
  matching room nothing is written.
\<close>

definition Room_findOneAndUpdate ::
  "js_string \<Rightarrow> js_string \<Rightarrow> world \<Rightarrow> (js_error + unit) \<times> world" where
  "Room_findOneAndUpdate c d w =
     (case store_call w of
        (True, w') \<Rightarrow> (Inl StoreError, w')
      | (False, w') \<Rightarrow>
          (case find_room c (rooms_db w') of
             None \<Rightarrow> (Inr (), w')
           | Some (i, r) \<Rightarrow>
               (Inr (), w'\<lparr>rooms_db := (rooms_db w')[i := r\<lparr>canvasData := Some d\<rparr>]\<rparr>)))"

subsection \<open>Session registry\<close>

text \<open>
  Modelled from the spec: the Session Registry of section 4.3 (\<open>join\<close>, \<open>leave\<close>,
  \<open>peersExcluding\<close>).  The program keeps it in the room adapter of the socket library,
  which is not among the sources: \<^verbatim>\<open>socket.join(r)\<close> adds the connection to room \<open>r\<close>
  once, \<^verbatim>\<open>socket.to(r).emit(m)\<close> delivers \<open>m\<close> to every connection in \<open>r\<close> but the
  sender, \<^verbatim>\<open>socket.emit(m)\<close> delivers to the connection itself, and a connection
  that closes leaves every room before its \<^verbatim>\<open>disconnect\<close> handler runs.  The
  private room that the library opens for each connection under its own identifier is
  left out.
\<close>

definition socket_join :: "socket_id \<Rightarrow> js_string \<Rightarrow> world \<Rightarrow> world" where
  "socket_join socket r w =
     (if socket \<in> set (adapter_rooms w r) then w
      else w\<lparr>adapter_rooms := (adapter_rooms w)(r := adapter_rooms w r @ [socket])\<rparr>)"

definition peersExcluding :: "js_string \<Rightarrow> socket_id \<Rightarrow> world \<Rightarrow> socket_id list" where
  "peersExcluding r socket w = filter (\<lambda>p. p \<noteq> socket) (adapter_rooms w r)"

definition socket_to_emit :: "socket_id \<Rightarrow> js_string \<Rightarrow> server_msg \<Rightarrow> world \<Rightarrow> world" where
  "socket_to_emit socket r m w =
     w\<lparr>outbox := outbox w @ map (\<lambda>p. (p, m)) (peersExcluding r socket w)\<rparr>"

definition socket_emit :: "socket_id \<Rightarrow> server_msg \<Rightarrow> world \<Rightarrow> world" where
  "socket_emit socket m w = w\<lparr>outbox := outbox w @ [(socket, m)]\<rparr>"

definition leave :: "socket_id \<Rightarrow> world \<Rightarrow> world" where
  "leave socket w = w\<lparr>adapter_rooms := (\<lambda>r. removeAll socket (adapter_rooms w r))\<rparr>"

text \<open>The messages a step from \<open>w\<close> to \<open>w'\<close> has delivered.\<close>

definition emitted :: "world \<Rightarrow> world \<Rightarrow> (socket_id \<times> server_msg) list" where
  "emitted w w' = drop (length (outbox w)) (outbox w')"

section \<open>Realtime handlers\<close>

text \<open>
  \<^verbatim>\<open>socket.on('join-room', async (roomCode) => { try { ... } catch (error) { ... } })\<close>
\<close>

definition on_join_room :: "socket_id \<Rightarrow> js_value \<Rightarrow> world \<Rightarrow> world" where
  "on_join_room socket rc w =
     (case call_toUpperCase rc of
        Inl e \<Rightarrow> console_error ''Error joining room'' w
      | Inr upperRoomCode \<Rightarrow>
          (case Room_findOne upperRoomCode (socket_join socket upperRoomCode w) of
             (Inl e, w') \<Rightarrow> console_error ''Error joining room'' w'
           | (Inr None, w') \<Rightarrow> w'
           | (Inr (Some (i, roomData)), w') \<Rightarrow>
               (case canvasData roomData of
                  None \<Rightarrow> w'
                | Some d \<Rightarrow> if d \<noteq> [] then socket_emit socket (CanvasData d) w' else w')))"

text \<open>\<^verbatim>\<open>socket.on('drawing-data', async (data) => { ... })\<close>\<close>

definition on_drawing_data :: "socket_id \<Rightarrow> drawing_data \<Rightarrow> world \<Rightarrow> world" where
  "on_drawing_data socket data w =
     (case call_toUpperCase (roomCode data) of
        Inl e \<Rightarrow> console_error ''Error handling drawing data'' w
      | Inr upperRoomCode \<Rightarrow>
          socket_to_emit socket upperRoomCode
            (DrawingData \<lparr>prevX = prevX data, prevY = prevY data,
                          currentX = currentX data, currentY = currentY data,
                          color = color data, size' = size' data, tool = tool data\<rparr>) w)"

text \<open>
  \<^verbatim>\<open>socket.on('canvas-data', async ({ roomCode, imageData }) => { ... })\<close>; the image
  is a string.
\<close>

definition on_canvas_data :: "socket_id \<Rightarrow> js_value \<Rightarrow> js_string \<Rightarrow> world \<Rightarrow> world" where
  "on_canvas_data socket rc imageData w =
     (case call_toUpperCase rc of
        Inl e \<Rightarrow> console_error ''Error handling canvas data'' w
      | Inr upperRoomCode \<Rightarrow>
          (case Room_findOneAndUpdate upperRoomCode imageData
                  (socket_to_emit socket upperRoomCode (CanvasData imageData) w) of
             (Inl e, w') \<Rightarrow> console_error ''Error handling canvas data'' w'
           | (Inr u, w') \<Rightarrow> w'))"

text \<open>\<^verbatim>\<open>socket.on('clear-canvas', async (roomCode) => { ... })\<close>\<close>

definition on_clear_canvas :: "socket_id \<Rightarrow> js_value \<Rightarrow> world \<Rightarrow> world" where
  "on_clear_canvas socket rc w =
     (case call_toUpperCase rc of
        Inl e \<Rightarrow> console_error ''Error clearing canvas data'' w
      | Inr upperRoomCode \<Rightarrow>
          (case Room_findOneAndUpdate upperRoomCode []
                  (socket_to_emit socket upperRoomCode ClearCanvas w) of
             (Inl e, w') \<Rightarrow> console_error ''Error clearing canvas data'' w'
           | (Inr u, w') \<Rightarrow> w'))"

text \<open>
  A connection closes: the library takes it out of every room, then the handler
  \<^verbatim>\<open>socket.on('disconnect', () => { console.log(...) })\<close> runs, which only logs.
\<close>

definition on_disconnect :: "socket_id \<Rightarrow> world \<Rightarrow> world" where
  "on_disconnect socket w = leave socket w"

section \<open>HTTP handlers\<close>

text \<open>
  A response is its status and its JSON body.  The handlers run behind
  \<^verbatim>\<open>authenticateToken\<close>, which supplies \<open>userId\<close>.  An exception thrown outside
  the handler's \<^verbatim>\<open>try\<close> block is not answered: the result is then the exception.
\<close>

datatype http_body =
    ErrorBody string
  | RoomCreated js_string js_string
  | RoomMissing js_string nat
  | RoomFound js_string js_string nat

type_synonym http_response = "nat \<times> http_body"

text \<open>
  \<^verbatim>\<open>
  let code; let existingRoom; let attempts = 0;
  do {
    code = genRoomCode();
    existingRoom = await Room.findOne({ code: code.toUpperCase() });
    attempts++;
  } while (existingRoom && attempts < 10);
  \<close>
  The loop is entered with the value of \<open>attempts\<close>; it yields the last code, what the
  last lookup found and the number of attempts made, or the store's error.
\<close>

function code_loop ::
  "nat \<Rightarrow> random_source \<Rightarrow> world
     \<Rightarrow> (js_error + js_string \<times> (nat \<times> room) option \<times> nat) \<times> world" where
  "code_loop attempts rng w =
     (case Room_findOne (toUpperCase (fst (genRoomCode rng))) w of
        (Inl e, w') \<Rightarrow> (Inl e, w')
      | (Inr existingRoom, w') \<Rightarrow>
          if existingRoom \<noteq> None \<and> attempts + 1 < 10
          then code_loop (attempts + 1) (snd (genRoomCode rng)) w'
          else (Inr (fst (genRoomCode rng), existingRoom, attempts + 1), w'))"
  by pat_completeness auto
termination
  by (relation "measure (\<lambda>(attempts, rng, w). 10 - attempts)") auto

declare code_loop.simps [simp del]

text \<open>\<^verbatim>\<open>app.post('/api/create-room', authenticateToken, async (req, res) => { ... })\<close>\<close>

definition create_room ::
  "user_id \<Rightarrow> js_value \<Rightarrow> random_source \<Rightarrow> world \<Rightarrow> (js_error + http_response) \<times> world" where
  "create_room userId roomName rng w =
     (if \<not> truthy roomName then (Inr (400, ErrorBody ''Room name is required''), w)
      else case call_trim roomName of
        Inl e \<Rightarrow> (Inl e, w)
      | Inr trimmed \<Rightarrow>
          if trimmed = [] then (Inr (400, ErrorBody ''Room name is required''), w)
          else (case code_loop 0 rng w of
             (Inl e, w1) \<Rightarrow>
               (Inr (500, ErrorBody ''Room creation failed''),
                console_error ''Create room error'' w1)
           | (Inr (code', existingRoom, attempts), w1) \<Rightarrow>
               if existingRoom \<noteq> None
               then (Inr (500, ErrorBody ''Failed to generate unique room code''), w1)
               else (case Room_insert \<lparr>code = toUpperCase code', room_name = trimmed,
                                        creator = userId, members = [userId],
                                        canvasData = None\<rparr> w1 of
                  (Inl e, w2) \<Rightarrow>
                    (Inr (500, ErrorBody ''Room creation failed''),
                     console_error ''Create room error'' w2)
                | (Inr u, w2) \<Rightarrow>
                    (Inr (201, RoomCreated (toUpperCase code') trimmed), w2))))"

text \<open>\<^verbatim>\<open>app.post('/api/verify-room', authenticateToken, async (req, res) => { ... })\<close>\<close>

definition verify_room ::
  "user_id \<Rightarrow> js_value \<Rightarrow> world \<Rightarrow> (js_error + http_response) \<times> world" where
  "verify_room userId rc w =
     (if \<not> truthy rc then (Inr (400, ErrorBody ''Room code is required''), w)
      else case call_trim rc of
        Inl e \<Rightarrow> (Inl e, w)
      | Inr trimmed \<Rightarrow>
          if trimmed = [] then (Inr (400, ErrorBody ''Room code is required''), w)
          else (case Room_findOne (toUpperCase trimmed) w of
             (Inl e, w1) \<Rightarrow>
               (Inr (500, ErrorBody ''Room verification failed''),
                console_error ''Verify room error'' w1)
           | (Inr None, w1) \<Rightarrow>
               (case Room_find_all w1 of
                  (Inl e, w2) \<Rightarrow>
                    (Inr (500, ErrorBody ''Room verification failed''),
                     console_error ''Verify room error'' w2)
                | (Inr allRooms, w2) \<Rightarrow>
                    (Inr (404, RoomMissing
                            (str ''Room with code '' @ [0x22] @ toUpperCase trimmed
                               @ [0x22] @ str '' not found'')
                            (length allRooms)), w2))
           | (Inr (Some (i, r)), w1) \<Rightarrow>
               if userId \<notin> set (members r)
               then (case Room_save i (r\<lparr>members := members r @ [userId]\<rparr>) w1 of
                  (Inl e, w2) \<Rightarrow>
                    (Inr (500, ErrorBody ''Room verification failed''),
                     console_error ''Verify room error'' w2)
                | (Inr u, w2) \<Rightarrow>
                    (Inr (200, RoomFound (room_name r) (code r)
                            (length (members r @ [userId]))), w2))
               else (Inr (200, RoomFound (room_name r) (code r) (length (members r))), w1)))"

text \<open>
  The code that the \<open>j\<close>-th run of the loop body generates (counting from 0): each run
  draws six numbers.
\<close>

definition nth_code :: "random_source \<Rightarrow> nat \<Rightarrow> js_string" where
  "nth_code rng j = fst (genRoomCode (\<lambda>k. rng (k + 6 * j)))"

section \<open>Rounding to binary64\<close>

lemma ulp_up_pos: "0 < p \<Longrightarrow> 0 < ulp_up n p x"
  by (induction n arbitrary: p) simp_all

lemma ulp_down_pos: "0 < p \<Longrightarrow> 0 < ulp_down n p x"
  by (induction n arbitrary: p) simp_all

lemma ulp_pos: "0 < ulp x"
  by (simp add: ulp_def ulp_up_pos ulp_down_pos)

lemma ulp_up_le: "0 < p \<Longrightarrow> p \<le> x \<Longrightarrow> ulp_up n p x \<le> x / 2 ^ 52"
proof (induction n arbitrary: p)
  case 0
  then show ?case by (simp add: divide_right_mono)
next
  case (Suc n)
  show ?case
  proof (cases "x < 2 * p")
    case True
    with Suc.prems show ?thesis by (simp add: divide_right_mono)
  next
    case False
    with Suc.prems Suc.IH [of "2 * p"] show ?thesis by simp
  qed
qed

lemma ulp_down_le: "0 < p \<Longrightarrow> ulp_down n p x \<le> p / 2 ^ 52"
proof (induction n arbitrary: p)
  case 0
  then show ?case by simp
next
  case (Suc n)
  show ?case
  proof (cases "p \<le> x")
    case True
    then show ?thesis by simp
  next
    case False
    have "ulp_down n (p / 2) x \<le> p / 2 / 2 ^ 52" using Suc.prems by (intro Suc.IH) simp
    also have "\<dots> \<le> p / 2 ^ 52" using Suc.prems by (simp add: divide_right_mono)
    finally show ?thesis using False by simp
  qed
qed

lemma ulp_le: "0 \<le> x \<Longrightarrow> ulp x \<le> max x (1 / 2) / 2 ^ 52"
proof (cases "1 \<le> x")
  case True
  with ulp_up_le [of 1 x 1023] show ?thesis by (simp add: ulp_def max_def)
next
  case False
  have "ulp_down 1021 (1 / 2) x \<le> 1 / 2 / 2 ^ 52" by (rule ulp_down_le) simp
  also have "\<dots> \<le> max x (1 / 2) / 2 ^ 52" by (intro divide_right_mono) simp_all
  finally show ?thesis using False by (simp add: ulp_def)
qed

lemma ulp_half_to_one: "1 / 2 \<le> x \<Longrightarrow> x < 1 \<Longrightarrow> ulp x = 1 / 2 ^ 53"
  by (simp add: ulp_def eval_nat_numeral)

lemma ulp_32_to_64: "32 \<le> x \<Longrightarrow> x < 64 \<Longrightarrow> ulp x = 1 / 2 ^ 47"
  by (simp add: ulp_def eval_nat_numeral)

lemma round_half_even_le: "of_int (round_half_even q) \<le> q + 1 / 2"
  unfolding round_half_even_def by (auto; linarith)

lemma round_half_even_nonneg: "0 \<le> q \<Longrightarrow> 0 \<le> round_half_even q"
  unfolding round_half_even_def by (auto; linarith)

lemma round_binary64_nonneg: "0 \<le> x \<Longrightarrow> 0 \<le> round_binary64 x"
proof (cases "x = 0")
  case True
  then show ?thesis by (simp add: round_binary64_def)
next
  case False
  assume "0 \<le> x"
  with False have x: "0 < x" by simp
  then have "0 \<le> x / ulp x" using ulp_pos [of x] by simp
  then have "0 \<le> round_half_even (x / ulp x)" by (rule round_half_even_nonneg)
  with x ulp_pos [of x] show ?thesis by (simp add: round_binary64_def)
qed

lemma round_binary64_le: 
  assumes "0 < x"
  shows "round_binary64 x \<le> x + ulp x / 2"
proof -
  have "of_int (round_half_even (x / ulp x)) * ulp x \<le> (x / ulp x + 1 / 2) * ulp x"
    using round_half_even_le [of "x / ulp x"] ulp_pos [of x] by (intro mult_right_mono) simp_all
  also have "\<dots> = x + ulp x / 2" using ulp_pos [of x] by (simp add: field_simps)
  finally show ?thesis using assms by (simp add: round_binary64_def)
qed

lemma binary64_below_one:
  assumes "is_binary64 r" "0 \<le> r" "r < 1"
  shows "r \<le> 1 - 1 / 2 ^ 53"
proof (cases "r < 1 / 2")
  case True
  have "(1::real) / 2 \<le> 1 - 1 / 2 ^ 53" by simp
  with True show ?thesis by linarith
next
  case False
  then have half: "1 / 2 \<le> r" by simp
  then have u: "ulp r = 1 / 2 ^ 53" using assms(3) by (rule ulp_half_to_one)
  from half have pos: "0 < r" by simp
  then have abs: "\<bar>r\<bar> = r" "sgn r = 1" "r \<noteq> 0" by simp_all
  define N where "N = round_half_even (r / ulp r)"
  from assms(1) pos have "of_int N * (1 / 2 ^ 53) = r"
    unfolding is_binary64_def round_binary64_def N_def abs(1,2) u by simp
  then have r: "r = of_int N / 2 ^ 53" by simp
  with assms(3) have "real_of_int N < real_of_int (2 ^ 53)" by (simp add: field_simps)
  then have "N < 2 ^ 53" by (simp only: of_int_less_iff)
  then have "N \<le> 2 ^ 53 - 1" by simp
  then have "real_of_int N \<le> real_of_int (2 ^ 53 - 1)" by (simp only: of_int_le_iff)
  then have "real_of_int N \<le> 2 ^ 53 - 1" by simp
  then have "real_of_int N / 2 ^ 53 \<le> (2 ^ 53 - 1) / 2 ^ 53" by (rule divide_right_mono) simp
  also have "\<dots> = 1 - 1 / (2::real) ^ 53" by (simp add: field_simps)
  finally show ?thesis unfolding r .
qed

lemma product_with_36_below_36:
  assumes "0 \<le> r" "r \<le> 1 - 1 / 2 ^ 53"
  shows "round_binary64 (r * 36) < 36"
proof -
  let ?y = "r * 36"
  have y0: "0 \<le> ?y" using assms(1) by simp
  have ytop: "?y \<le> 36 - 36 / 2 ^ 53" using assms(2) by simp
  consider (zero) "?y = 0" | (low) "0 < ?y" "?y < 32" | (high) "32 \<le> ?y"
    using y0 by linarith
  then show ?thesis
  proof cases
    case zero
    then show ?thesis by (simp add: round_binary64_def)
  next
    case low
    have "ulp ?y \<le> max ?y (1 / 2) / 2 ^ 52" using y0 by (rule ulp_le)
    also have "\<dots> \<le> 32 / 2 ^ 52" using low by (intro divide_right_mono) simp_all
    finally have "ulp ?y \<le> 1" by simp
    with round_binary64_le [OF low(1)] low(2) show ?thesis by linarith
  next
    case high
    from ytop have "?y < 64" by simp
    with high have u: "ulp ?y = 1 / 2 ^ 47" by (rule ulp_32_to_64)
    from high have pos: "0 < ?y" by simp
    then have abs: "\<bar>?y\<bar> = ?y" "sgn ?y = 1" "?y \<noteq> 0" by simp_all
    define N where "N = round_half_even (?y / ulp ?y)"
    have "real_of_int N \<le> ?y / ulp ?y + 1 / 2" unfolding N_def by (rule round_half_even_le)
    also have "\<dots> = ?y * 2 ^ 47 + 1 / 2" by (simp add: u)
    also have "\<dots> \<le> (36 - 36 / 2 ^ 53) * 2 ^ 47 + 1 / 2"
      using ytop by (intro add_right_mono mult_right_mono) simp_all
    also have "\<dots> < 36 * 2 ^ 47" by simp
    finally have "real_of_int N / 2 ^ 47 < 36" by (simp add: field_simps)
    moreover have "round_binary64 ?y = real_of_int N / 2 ^ 47"
      unfolding round_binary64_def N_def abs(1,2) u using pos by simp
    ultimately show ?thesis by simp
  qed
qed

section \<open>Properties of the generator\<close>

lemma charAt_chars_in_range:
  assumes "is_binary64 r" "0 \<le> r" "r < 1"
  shows "\<exists>c \<in> set chars. charAt chars \<lfloor>times_binary64 r (real (length chars))\<rfloor> = [c]"
proof -
  have len: "length chars = 36" by (simp add: chars_def str_def)
  let ?v = "round_binary64 (r * 36)"
  from binary64_below_one [OF assms] have "r \<le> 1 - 1 / 2 ^ 53" .
  with assms(2) have "?v < 36" by (rule product_with_36_below_36)
  then have hi: "\<lfloor>?v\<rfloor> < 36" by (simp add: floor_less_iff)
  have "0 \<le> ?v" using assms(2) by (intro round_binary64_nonneg) simp
  then have lo: "0 \<le> \<lfloor>?v\<rfloor>" by simp
  from lo hi have "nat \<lfloor>?v\<rfloor> < length chars" unfolding len by linarith
  then have "chars ! nat \<lfloor>?v\<rfloor> \<in> set chars" by (rule nth_mem)
  with lo hi show ?thesis by (simp add: charAt_def len times_binary64_def)
qed

lemma genRoomCode_loop_shape:
  assumes "\<forall>k. is_binary64 (rng k) \<and> 0 \<le> rng k \<and> rng k < 1"
  shows "length (genRoomCode_loop n rng acc) = length acc + n
       \<and> set (genRoomCode_loop n rng acc) \<subseteq> set acc \<union> set chars"
  using assms
proof (induction n arbitrary: rng acc)
  case 0
  show ?case by simp
next
  case (Suc n)
  from Suc.prems have "is_binary64 (rng 0)" "0 \<le> rng 0" "rng 0 < 1" by simp_all
  then obtain c where c: "c \<in> set chars"
    "charAt chars \<lfloor>times_binary64 (rng 0) (real (length chars))\<rfloor> = [c]"
    using charAt_chars_in_range by blast
  have shifted: "\<forall>k. is_binary64 (rng (Suc k)) \<and> 0 \<le> rng (Suc k) \<and> rng (Suc k) < 1"
    using Suc.prems by simp
  from Suc.IH [OF shifted, of "acc @ [c]"] c show ?case by auto
qed

text \<open>
  C9.  Whatever binary64 numbers in \<open>[0, 1)\<close> the random source yields, the generated room
  code has exactly six characters and each of them is one of the 36 symbols \<open>A-Z\<close>,
  \<open>0-9\<close>.
\<close>

theorem genRoomCode_six_alphanumeric:
  assumes "\<forall>k. is_binary64 (rng k) \<and> 0 \<le> rng k \<and> rng k < 1"
  shows "length (fst (genRoomCode rng)) = 6
       \<and> set (fst (genRoomCode rng)) \<subseteq> set (str ''ABCDEFGHIJKLMNOPQRSTUVWXYZ0123456789'')
       \<and> length (str ''ABCDEFGHIJKLMNOPQRSTUVWXYZ0123456789'') = 36
       \<and> distinct (str ''ABCDEFGHIJKLMNOPQRSTUVWXYZ0123456789'')"
proof -
  from genRoomCode_loop_shape [OF assms, of 6 "[]"]
  have "length (genRoomCode_loop 6 rng []) = 6"
    and "set (genRoomCode_loop 6 rng []) \<subseteq> set chars" by simp_all
  then show ?thesis by (simp add: genRoomCode_def chars_def str_def)
qed

theorem genRoomCode_six_alphanumeric_witness:
  "is_binary64 (2001599834386887 / 2 ^ 52)
   \<and> fst (genRoomCode (\<lambda>k. 2001599834386887 / 2 ^ 52)) = str ''QQQQQQ''
   \<and> length (fst (genRoomCode (\<lambda>k. 2001599834386887 / 2 ^ 52))) = 6"
proof -
  have b: "is_binary64 (2001599834386887 / 2 ^ 52)"
    by (simp add: is_binary64_def round_binary64_def ulp_def round_half_even_def
          eval_nat_numeral)
  have h: "\<forall>k. is_binary64 ((\<lambda>k. 2001599834386887 / 2 ^ 52) k)
         \<and> (0::real) \<le> (\<lambda>k. 2001599834386887 / 2 ^ 52) k
         \<and> (\<lambda>k. 2001599834386887 / 2 ^ 52) k < (1::real)"
    using b by simp
  have p: "times_binary64 (2001599834386887 / 4503599627370496) 36 = 16"
    by (simp add: times_binary64_def round_binary64_def ulp_def round_half_even_def
          eval_nat_numeral)
  have v: "fst (genRoomCode (\<lambda>k. 2001599834386887 / 2 ^ 52)) = str ''QQQQQQ''"
    by (simp add: genRoomCode_def chars_def str_def charAt_def p eval_nat_numeral)
  from genRoomCode_six_alphanumeric [OF h] b v show ?thesis by simp
qed

section \<open>Evaluation on concrete inputs\<close>

lemmas upper_eval = toUpperCase_def upper_char_def str_def

lemmas handler_eval =
  on_join_room_def on_drawing_data_def on_canvas_data_def on_clear_canvas_def
  socket_join_def socket_to_emit_def socket_emit_def peersExcluding_def emitted_def
  Room_findOne_def Room_findOneAndUpdate_def store_call_def find_room_def
  console_error_def initial_world_def

lemmas http_eval =
  verify_room_def create_room_def Room_findOne_def Room_find_all_def Room_insert_def
  Room_save_def store_call_def find_room_def console_error_def initial_world_def
  trim_def is_space_def

lemma times_binary64_examples:
  "times_binary64 0 36 = 0" "times_binary64 (1 / 2) 36 = 18"
  by (simp_all add: times_binary64_def round_binary64_def ulp_def round_half_even_def
        eval_nat_numeral)

lemma genRoomCode_constant:
  "fst (genRoomCode (\<lambda>k. 0)) = str ''AAAAAA''" "fst (genRoomCode (\<lambda>k. 1 / 2)) = str ''SSSSSS''"
  by (simp_all add: genRoomCode_def chars_def str_def charAt_def times_binary64_examples
        eval_nat_numeral)


section \<open>The store call and the broadcasts\<close>

lemma store_call_frame:
  "rooms_db (snd (store_call w)) = rooms_db w"
  "adapter_rooms (snd (store_call w)) = adapter_rooms w"
  "outbox (snd (store_call w)) = outbox w"
  "console_errors (snd (store_call w)) = console_errors w"
  by (simp_all add: store_call_def split: list.splits)

lemma store_call_cases:
  obtains (ok) "store_call w = (False, w\<lparr>store_faults := tl (store_faults w)\<rparr>)"
        | (fault) "store_call w = (True, w\<lparr>store_faults := tl (store_faults w)\<rparr>)"
  by (cases "store_faults w"; cases "hd (store_faults w)") (auto simp: store_call_def)

lemma findOneAndUpdate_frame:
  "adapter_rooms (snd (Room_findOneAndUpdate c d w)) = adapter_rooms w"
  "outbox (snd (Room_findOneAndUpdate c d w)) = outbox w"
  by (cases w rule: store_call_cases; simp add: Room_findOneAndUpdate_def split: option.splits)+

lemma emitted_append [simp]:
  "outbox w' = outbox w @ ms \<Longrightarrow> emitted w w' = ms"
  by (simp add: emitted_def)

lemma drawing_data_outbox:
  "roomCode data = JStr R \<Longrightarrow>
   outbox (on_drawing_data socket data w) =
     outbox w @ map (\<lambda>p. (p, DrawingData \<lparr>prevX = prevX data, prevY = prevY data,
                          currentX = currentX data, currentY = currentY data,
                          color = color data, size' = size' data, tool = tool data\<rparr>))
                (peersExcluding (toUpperCase R) socket w)"
  by (simp add: on_drawing_data_def socket_to_emit_def)

lemma canvas_data_outbox:
  "outbox (on_canvas_data socket (JStr R) img w) =
     outbox w @ map (\<lambda>p. (p, CanvasData img)) (peersExcluding (toUpperCase R) socket w)"
  by (cases "socket_to_emit socket (toUpperCase R) (CanvasData img) w" rule: store_call_cases)
     (simp_all add: on_canvas_data_def Room_findOneAndUpdate_def socket_to_emit_def
        console_error_def split: option.splits)

lemma clear_canvas_outbox:
  "outbox (on_clear_canvas socket (JStr R) w) =
     outbox w @ map (\<lambda>p. (p, ClearCanvas)) (peersExcluding (toUpperCase R) socket w)"
  by (cases "socket_to_emit socket (toUpperCase R) ClearCanvas w" rule: store_call_cases)
     (simp_all add: on_clear_canvas_def Room_findOneAndUpdate_def socket_to_emit_def
        console_error_def split: option.splits)

section \<open>Drawing events\<close>

lemma socket_join_member: "socket \<in> set (adapter_rooms (socket_join socket r w) r)"
  by (simp add: socket_join_def)

lemma join_room_registry:
  "adapter_rooms (on_join_room socket (JStr raw) w) =
     adapter_rooms (socket_join socket (toUpperCase raw) w)"
  by (cases "socket_join socket (toUpperCase raw) w" rule: store_call_cases)
     (simp_all add: on_join_room_def Room_findOne_def socket_emit_def console_error_def
        split: option.splits)

text \<open>
  C3.  A connection that has joined room \<open>R\<close> is registered in it.  When a connection sends
  a drawing event for \<open>R\<close>, the messages delivered are one drawing message for each other
  connection in the room, carrying the seven fields of the event unchanged; none is
  addressed to the sender; the Room collection is untouched and no store operation is
  issued.
\<close>

theorem drawing_data_relayed_without_echo:
  assumes "roomCode data = JStr R"
  shows "socket \<in> set (adapter_rooms (on_join_room socket (JStr R) w0) (toUpperCase R))
       \<and> emitted w (on_drawing_data socket data w) =
           map (\<lambda>p. (p, DrawingData \<lparr>prevX = prevX data, prevY = prevY data,
                          currentX = currentX data, currentY = currentY data,
                          color = color data, size' = size' data, tool = tool data\<rparr>))
               (peersExcluding (toUpperCase R) socket w)
       \<and> (\<forall>p \<in> set (adapter_rooms w (toUpperCase R)). p \<noteq> socket \<longrightarrow>
            (p, DrawingData \<lparr>prevX = prevX data, prevY = prevY data,
                          currentX = currentX data, currentY = currentY data,
                          color = color data, size' = size' data, tool = tool data\<rparr>)
              \<in> set (emitted w (on_drawing_data socket data w)))
       \<and> (\<forall>m. (socket, m) \<notin> set (emitted w (on_drawing_data socket data w)))
       \<and> rooms_db (on_drawing_data socket data w) = rooms_db w
       \<and> store_faults (on_drawing_data socket data w) = store_faults w
       \<and> adapter_rooms (on_drawing_data socket data w) = adapter_rooms w"
proof -
  let ?w' = "on_drawing_data socket data w"
  have joined: "socket \<in> set (adapter_rooms (on_join_room socket (JStr R) w0) (toUpperCase R))"
    by (simp add: join_room_registry socket_join_member)
  have em: "emitted w ?w' =
           map (\<lambda>p. (p, DrawingData \<lparr>prevX = prevX data, prevY = prevY data,
                          currentX = currentX data, currentY = currentY data,
                          color = color data, size' = size' data, tool = tool data\<rparr>))
               (peersExcluding (toUpperCase R) socket w)"
    using drawing_data_outbox [OF assms] by simp
  have others: "\<forall>p \<in> set (adapter_rooms w (toUpperCase R)). p \<noteq> socket \<longrightarrow>
            (p, DrawingData \<lparr>prevX = prevX data, prevY = prevY data,
                          currentX = currentX data, currentY = currentY data,
                          color = color data, size' = size' data, tool = tool data\<rparr>)
              \<in> set (emitted w ?w')"
    unfolding em by (auto simp: peersExcluding_def)
  have no_echo: "\<forall>m. (socket, m) \<notin> set (emitted w ?w')"
    unfolding em by (auto simp: peersExcluding_def)
  have frame: "rooms_db ?w' = rooms_db w" "store_faults ?w' = store_faults w"
    "adapter_rooms ?w' = adapter_rooms w"
    using assms by (simp_all add: on_drawing_data_def socket_to_emit_def)
  from joined em others no_echo frame show ?thesis by blast
qed

theorem drawing_data_relayed_without_echo_witness:
  "roomCode \<lparr>prevX = JNum 0, prevY = JNum 0, currentX = JNum 10, currentY = JNum 10,
         color = JStr (str ''#000''), size' = JNum 2, tool = JStr (str ''pen''), roomCode = JStr (str ''c'')\<rparr> = JStr (str ''c'')
   \<and> emitted (initial_world\<lparr>adapter_rooms := (\<lambda>r. [])((str ''C'') := [1, 2, 3])\<rparr>)
        (on_drawing_data 1
           \<lparr>prevX = JNum 0, prevY = JNum 0, currentX = JNum 10, currentY = JNum 10,
            color = JStr (str ''#000''), size' = JNum 2, tool = JStr (str ''pen''), roomCode = JStr (str ''c'')\<rparr>
           (initial_world\<lparr>adapter_rooms := (\<lambda>r. [])((str ''C'') := [1, 2, 3])\<rparr>))
      = [(2, DrawingData \<lparr>prevX = JNum 0, prevY = JNum 0, currentX = JNum 10, currentY = JNum 10,
            color = JStr (str ''#000''), size' = JNum 2, tool = JStr (str ''pen'')\<rparr>),
         (3, DrawingData \<lparr>prevX = JNum 0, prevY = JNum 0, currentX = JNum 10, currentY = JNum 10,
            color = JStr (str ''#000''), size' = JNum 2, tool = JStr (str ''pen'')\<rparr>)]"
  using drawing_data_relayed_without_echo
    [of "\<lparr>prevX = JNum 0, prevY = JNum 0, currentX = JNum 10, currentY = JNum 10,
         color = JStr (str ''#000''), size' = JNum 2, tool = JStr (str ''pen''), roomCode = JStr (str ''c'')\<rparr>"
        "(str ''c'')" 1 initial_world "initial_world\<lparr>adapter_rooms := (\<lambda>r. [])((str ''C'') := [1, 2, 3])\<rparr>"]
  by (simp add: peersExcluding_def upper_eval initial_world_def)

section \<open>Broadcast and persistence\<close>

lemma canvas_data_fault:
  "on_canvas_data socket (JStr R) img (w\<lparr>store_faults := True # fs\<rparr>) =
     (socket_to_emit socket (toUpperCase R) (CanvasData img) w)
       \<lparr>store_faults := fs,
        console_errors := console_errors w @ [''Error handling canvas data'']\<rparr>"
  by (simp add: on_canvas_data_def Room_findOneAndUpdate_def store_call_def socket_to_emit_def
        console_error_def peersExcluding_def)

lemma clear_canvas_fault:
  "on_clear_canvas socket (JStr R) (w\<lparr>store_faults := True # fs\<rparr>) =
     (socket_to_emit socket (toUpperCase R) ClearCanvas w)
       \<lparr>store_faults := fs,
        console_errors := console_errors w @ [''Error clearing canvas data'']\<rparr>"
  by (simp add: on_clear_canvas_def Room_findOneAndUpdate_def store_call_def socket_to_emit_def
        console_error_def peersExcluding_def)

text \<open>
  C6.  The messages a canvas sync or a clear delivers are the broadcast to the other
  connections of the room, whatever the Room collection holds (a matching room or none)
  and whatever faults the store is about to have.  When the store operation fails,
  nothing but the broadcast is delivered: the failure is printed on the error console, the
  collection stays as it was, and the handler ends normally.
\<close>

theorem broadcast_unaffected_by_persistence:
  "emitted w (on_canvas_data socket (JStr R) img (w\<lparr>rooms_db := db, store_faults := fs\<rparr>))
     = map (\<lambda>p. (p, CanvasData img)) (peersExcluding (toUpperCase R) socket w)
   \<and> emitted w (on_clear_canvas socket (JStr R) (w\<lparr>rooms_db := db, store_faults := fs\<rparr>))
     = map (\<lambda>p. (p, ClearCanvas)) (peersExcluding (toUpperCase R) socket w)
   \<and> console_errors (on_canvas_data socket (JStr R) img (w\<lparr>rooms_db := db, store_faults := True # fs\<rparr>))
     = console_errors w @ [''Error handling canvas data'']
   \<and> console_errors (on_clear_canvas socket (JStr R) (w\<lparr>rooms_db := db, store_faults := True # fs\<rparr>))
     = console_errors w @ [''Error clearing canvas data'']
   \<and> rooms_db (on_canvas_data socket (JStr R) img (w\<lparr>rooms_db := db, store_faults := True # fs\<rparr>)) = db
   \<and> rooms_db (on_clear_canvas socket (JStr R) (w\<lparr>rooms_db := db, store_faults := True # fs\<rparr>)) = db"
proof -
  let ?w = "w\<lparr>rooms_db := db, store_faults := fs\<rparr>"
  have same: "outbox ?w = outbox w" "peersExcluding (toUpperCase R) socket ?w
      = peersExcluding (toUpperCase R) socket w"
    by (simp_all add: peersExcluding_def)
  have a: "emitted w (on_canvas_data socket (JStr R) img ?w)
     = map (\<lambda>p. (p, CanvasData img)) (peersExcluding (toUpperCase R) socket w)"
    using canvas_data_outbox [of socket R img ?w] same by simp
  have b: "emitted w (on_clear_canvas socket (JStr R) ?w)
     = map (\<lambda>p. (p, ClearCanvas)) (peersExcluding (toUpperCase R) socket w)"
    using clear_canvas_outbox [of socket R ?w] same by simp
  have c: "console_errors (on_canvas_data socket (JStr R) img (w\<lparr>rooms_db := db, store_faults := True # fs\<rparr>))
     = console_errors w @ [''Error handling canvas data'']"
    "rooms_db (on_canvas_data socket (JStr R) img (w\<lparr>rooms_db := db, store_faults := True # fs\<rparr>)) = db"
    using canvas_data_fault [where socket = socket and R = R and img = img and w = "w\<lparr>rooms_db := db\<rparr>" and fs = fs]
    by (simp_all add: socket_to_emit_def)
  have d: "console_errors (on_clear_canvas socket (JStr R) (w\<lparr>rooms_db := db, store_faults := True # fs\<rparr>))
     = console_errors w @ [''Error clearing canvas data'']"
    "rooms_db (on_clear_canvas socket (JStr R) (w\<lparr>rooms_db := db, store_faults := True # fs\<rparr>)) = db"
    using clear_canvas_fault [where socket = socket and R = R and w = "w\<lparr>rooms_db := db\<rparr>" and fs = fs]
    by (simp_all add: socket_to_emit_def)
  show ?thesis by (simp only: a b c d simp_thms)
qed

section \<open>Disconnection\<close>

lemma leave_not_member: "socket \<notin> set (adapter_rooms (leave socket w) r)"
  by (simp add: leave_def)

lemma peersExcluding_subset: "set (peersExcluding r s w) \<subseteq> set (adapter_rooms w r)"
  by (auto simp: peersExcluding_def)

text \<open>
  C8.  After a connection has disconnected it is in no room of the registry, and no
  later drawing, canvas or clear broadcast of any connection is addressed to it.  The
  disconnection itself delivers no message, and leaves the Room collection, the store's
  coming faults and the error console as they were.
\<close>

theorem disconnect_leaves_registry_silently:
  "(\<forall>r. socket \<notin> set (adapter_rooms (on_disconnect socket w) r))
   \<and> (\<forall>r. set (adapter_rooms (on_disconnect socket w) r) = set (adapter_rooms w r) - {socket})
   \<and> emitted w (on_disconnect socket w) = []
   \<and> rooms_db (on_disconnect socket w) = rooms_db w
   \<and> store_faults (on_disconnect socket w) = store_faults w
   \<and> console_errors (on_disconnect socket w) = console_errors w
   \<and> (\<forall>sender data m.
         (socket, m) \<notin> set (emitted (on_disconnect socket w)
                               (on_drawing_data sender data (on_disconnect socket w))))
   \<and> (\<forall>sender rc img m.
         (socket, m) \<notin> set (emitted (on_disconnect socket w)
                               (on_canvas_data sender rc img (on_disconnect socket w))))
   \<and> (\<forall>sender rc m.
         (socket, m) \<notin> set (emitted (on_disconnect socket w)
                               (on_clear_canvas sender rc (on_disconnect socket w))))"
proof -
  let ?w = "on_disconnect socket w"
  have gone: "\<forall>r. socket \<notin> set (adapter_rooms ?w r)"
    by (simp add: on_disconnect_def leave_not_member)
  have rest: "\<forall>r. set (adapter_rooms ?w r) = set (adapter_rooms w r) - {socket}"
    by (auto simp: on_disconnect_def leave_def)
  have quiet: "emitted w ?w = []"
    by (simp add: on_disconnect_def leave_def emitted_def)
  have frame: "rooms_db ?w = rooms_db w" "store_faults ?w = store_faults w"
    "console_errors ?w = console_errors w"
    by (simp_all add: on_disconnect_def leave_def)
  have not_peer: "socket \<notin> set (peersExcluding r sender ?w)" for r sender
    using gone peersExcluding_subset [of r sender ?w] by blast
  have draw: "(socket, m) \<notin> set (emitted ?w (on_drawing_data sender data ?w))" for sender data m
  proof (cases "roomCode data")
    case (JStr R)
    from drawing_data_outbox [OF this, of sender ?w] not_peer [of "toUpperCase R" sender]
    show ?thesis by auto
  qed (simp_all add: on_drawing_data_def console_error_def emitted_def)
  have canvas: "(socket, m) \<notin> set (emitted ?w (on_canvas_data sender rc img ?w))"
    for sender rc img m
  proof (cases rc)
    case (JStr R)
    from canvas_data_outbox [of sender R img ?w] not_peer [of "toUpperCase R" sender]
    show ?thesis unfolding JStr by auto
  qed (simp_all add: on_canvas_data_def console_error_def emitted_def)
  have clear: "(socket, m) \<notin> set (emitted ?w (on_clear_canvas sender rc ?w))"
    for sender rc m
  proof (cases rc)
    case (JStr R)
    from clear_canvas_outbox [of sender R ?w] not_peer [of "toUpperCase R" sender]
    show ?thesis unfolding JStr by auto
  qed (simp_all add: on_clear_canvas_def console_error_def emitted_def)
  show ?thesis
    using gone rest quiet frame by (simp add: draw canvas clear)
qed

section \<open>Drawing events from a connection in no room\<close>

text \<open>
  C7 as stated fails: connection 1 joins room \<open>ABC\<close> of the initial world, connection 2
  joins nothing and sends a drawing event naming \<open>abc\<close>; connection 1 is delivered the
  stroke.
\<close>

theorem drawing_data_unjoined_sender_counterexample:
  "emitted (on_join_room 1 (JStr (str ''ABC'')) initial_world)
     (on_drawing_data 2
        \<lparr>prevX = JNum 0, prevY = JNum 0, currentX = JNum 10, currentY = JNum 10,
         color = JStr (str ''#000''), size' = JNum 2, tool = JStr (str ''pen''), roomCode = JStr (str ''abc'')\<rparr>
        (on_join_room 1 (JStr (str ''ABC'')) initial_world))
   = [(1, DrawingData \<lparr>prevX = JNum 0, prevY = JNum 0, currentX = JNum 10, currentY = JNum 10,
         color = JStr (str ''#000''), size' = JNum 2, tool = JStr (str ''pen'')\<rparr>)]
   \<and> adapter_rooms (on_join_room 1 (JStr (str ''ABC'')) initial_world) (str ''ABC'') = [1]"
  by (simp add: on_join_room_def on_drawing_data_def initial_world_def upper_eval
        socket_join_def Room_findOne_def store_call_def find_room_def socket_to_emit_def
        peersExcluding_def emitted_def)

text \<open>
  C7, amended.  A drawing event from a connection that is in no room is relayed like any
  other: it is delivered to every connection registered under the upper-cased room code
  of the event, and changes neither the registry nor the Room collection nor the store's
  coming faults.  It has no effect at all exactly when that room is empty; an event whose
  room code is not a string delivers nothing and is reported on the error console.
\<close>

theorem drawing_data_from_unjoined_sender:
  assumes "\<forall>r. socket \<notin> set (adapter_rooms w r)"
  shows "(\<forall>R. roomCode data = JStr R \<longrightarrow>
            emitted w (on_drawing_data socket data w) =
              map (\<lambda>p. (p, DrawingData \<lparr>prevX = prevX data, prevY = prevY data,
                          currentX = currentX data, currentY = currentY data,
                          color = color data, size' = size' data, tool = tool data\<rparr>))
                  (adapter_rooms w (toUpperCase R))
            \<and> console_errors (on_drawing_data socket data w) = console_errors w
            \<and> (on_drawing_data socket data w = w \<longleftrightarrow> adapter_rooms w (toUpperCase R) = []))
       \<and> ((\<forall>R. roomCode data \<noteq> JStr R) \<longrightarrow>
            emitted w (on_drawing_data socket data w) = []
            \<and> console_errors (on_drawing_data socket data w)
                = console_errors w @ [''Error handling drawing data''])
       \<and> adapter_rooms (on_drawing_data socket data w) = adapter_rooms w
       \<and> rooms_db (on_drawing_data socket data w) = rooms_db w
       \<and> store_faults (on_drawing_data socket data w) = store_faults w"
proof -
  let ?w' = "on_drawing_data socket data w"
  have peers: "peersExcluding r socket w = adapter_rooms w r" for r
    using assms by (auto simp: peersExcluding_def filter_id_conv)
  have str: "emitted w ?w' =
              map (\<lambda>p. (p, DrawingData \<lparr>prevX = prevX data, prevY = prevY data,
                          currentX = currentX data, currentY = currentY data,
                          color = color data, size' = size' data, tool = tool data\<rparr>))
                  (adapter_rooms w (toUpperCase R))
            \<and> console_errors ?w' = console_errors w
            \<and> (?w' = w \<longleftrightarrow> adapter_rooms w (toUpperCase R) = [])"
    if R: "roomCode data = JStr R" for R
  proof -
    have out: "outbox ?w' = outbox w @ map (\<lambda>p. (p, DrawingData \<lparr>prevX = prevX data, prevY = prevY data,
                          currentX = currentX data, currentY = currentY data,
                          color = color data, size' = size' data, tool = tool data\<rparr>))
                  (adapter_rooms w (toUpperCase R))"
      using drawing_data_outbox [OF R, of socket w] by (simp add: peers)
    have ce: "console_errors ?w' = console_errors w"
      using R by (simp add: on_drawing_data_def socket_to_emit_def)
    have same: "?w' = w \<longleftrightarrow> adapter_rooms w (toUpperCase R) = []"
    proof
      assume "?w' = w"
      then have "outbox ?w' = outbox w" by simp
      with out show "adapter_rooms w (toUpperCase R) = []" by simp
    next
      assume "adapter_rooms w (toUpperCase R) = []"
      then show "?w' = w"
        using R by (simp add: on_drawing_data_def socket_to_emit_def peers)
    qed
    from out ce same show ?thesis by simp
  qed
  have other: "emitted w ?w' = [] \<and> console_errors ?w'
                = console_errors w @ [''Error handling drawing data'']"
    if "\<forall>R. roomCode data \<noteq> JStr R"
    using that by (cases "roomCode data")
      (simp_all add: on_drawing_data_def console_error_def emitted_def)
  have frame: "adapter_rooms ?w' = adapter_rooms w" "rooms_db ?w' = rooms_db w"
    "store_faults ?w' = store_faults w"
    by (cases "roomCode data";
        simp add: on_drawing_data_def console_error_def socket_to_emit_def)+
  show ?thesis using str other frame by blast
qed

theorem drawing_data_from_unjoined_sender_witness:
  "(\<forall>r. (2::nat) \<notin> set (adapter_rooms (initial_world\<lparr>adapter_rooms := (\<lambda>r. [])((str ''ABC'') := [1, 3])\<rparr>) r))
   \<and> emitted (initial_world\<lparr>adapter_rooms := (\<lambda>r. [])((str ''ABC'') := [1, 3])\<rparr>)
        (on_drawing_data 2
           \<lparr>prevX = JNum 0, prevY = JNum 0, currentX = JNum 10, currentY = JNum 10,
            color = JStr (str ''#000''), size' = JNum 2, tool = JStr (str ''pen''), roomCode = JStr (str ''abc'')\<rparr>
           (initial_world\<lparr>adapter_rooms := (\<lambda>r. [])((str ''ABC'') := [1, 3])\<rparr>))
      = [(1, DrawingData \<lparr>prevX = JNum 0, prevY = JNum 0, currentX = JNum 10, currentY = JNum 10,
            color = JStr (str ''#000''), size' = JNum 2, tool = JStr (str ''pen'')\<rparr>),
         (3, DrawingData \<lparr>prevX = JNum 0, prevY = JNum 0, currentX = JNum 10, currentY = JNum 10,
            color = JStr (str ''#000''), size' = JNum 2, tool = JStr (str ''pen'')\<rparr>)]"
proof -
  have h: "\<forall>r. (2::nat) \<notin> set (adapter_rooms (initial_world\<lparr>adapter_rooms := (\<lambda>r. [])((str ''ABC'') := [1, 3])\<rparr>) r)"
    by (simp add: initial_world_def)
  from drawing_data_from_unjoined_sender [OF h,
      of "\<lparr>prevX = JNum 0, prevY = JNum 0, currentX = JNum 10, currentY = JNum 10,
            color = JStr (str ''#000''), size' = JNum 2, tool = JStr (str ''pen''), roomCode = JStr (str ''abc'')\<rparr>"]
  have "emitted (initial_world\<lparr>adapter_rooms := (\<lambda>r. [])((str ''ABC'') := [1, 3])\<rparr>)
        (on_drawing_data 2
           \<lparr>prevX = JNum 0, prevY = JNum 0, currentX = JNum 10, currentY = JNum 10,
            color = JStr (str ''#000''), size' = JNum 2, tool = JStr (str ''pen''), roomCode = JStr (str ''abc'')\<rparr>
           (initial_world\<lparr>adapter_rooms := (\<lambda>r. [])((str ''ABC'') := [1, 3])\<rparr>))
      = map (\<lambda>p. (p, DrawingData \<lparr>prevX = JNum 0, prevY = JNum 0, currentX = JNum 10, currentY = JNum 10,
            color = JStr (str ''#000''), size' = JNum 2, tool = JStr (str ''pen'')\<rparr>))
          (adapter_rooms (initial_world\<lparr>adapter_rooms := (\<lambda>r. [])((str ''ABC'') := [1, 3])\<rparr>) (toUpperCase (str ''abc'')))"
    by simp
  with h show ?thesis by (simp add: upper_eval initial_world_def)
qed

section \<open>Lookups in the Room collection\<close>

lemma find_room_from_Some:
  "find_room_from k c rs = Some (i, r) \<Longrightarrow>
     k \<le> i \<and> i - k < length rs \<and> rs ! (i - k) = r \<and> code r = c"
proof (induction rs arbitrary: k)
  case Nil
  then show ?case by simp
next
  case (Cons x xs)
  show ?case
  proof (cases "code x = c")
    case True
    with Cons.prems show ?thesis by simp
  next
    case False
    with Cons.prems have "find_room_from (Suc k) c xs = Some (i, r)" by simp
    from Cons.IH [OF this]
    have ih: "Suc k \<le> i" "i - Suc k < length xs" "xs ! (i - Suc k) = r" "code r = c"
      by simp_all
    from ih(1) have "i - k = Suc (i - Suc k)" by simp
    with ih show ?thesis by simp
  qed
qed

lemma find_room_from_None: "find_room_from k c rs = None \<longleftrightarrow> c \<notin> set (map code rs)"
  by (induction rs arbitrary: k) auto

lemma find_room_from_update:
  "find_room_from k c rs = Some (i, r) \<Longrightarrow> code r' = c \<Longrightarrow>
     find_room_from k c (rs[i - k := r']) = Some (i, r')"
proof (induction rs arbitrary: k)
  case Nil
  then show ?case by simp
next
  case (Cons x xs)
  show ?case
  proof (cases "code x = c")
    case True
    with Cons.prems show ?thesis by simp
  next
    case False
    with Cons.prems have f: "find_room_from (Suc k) c xs = Some (i, r)" by simp
    from find_room_from_Some [OF f] have "Suc k \<le> i" by simp
    then have "i - k = Suc (i - Suc k)" by simp
    with Cons.IH [OF f Cons.prems(2)] False show ?thesis by simp
  qed
qed

lemma find_room_Some:
  "find_room c rs = Some (i, r) \<Longrightarrow> i < length rs \<and> rs ! i = r \<and> code r = c"
  using find_room_from_Some [of 0 c rs i r] by (simp add: find_room_def)

lemma find_room_None: "find_room c rs = None \<longleftrightarrow> c \<notin> set (map code rs)"
  by (simp add: find_room_def find_room_from_None)

lemma find_room_update:
  "find_room c rs = Some (i, r) \<Longrightarrow> code r' = c \<Longrightarrow> find_room c (rs[i := r']) = Some (i, r')"
  using find_room_from_update [of 0 c rs i r r'] by (simp add: find_room_def)

section \<open>The snapshot sent on joining\<close>

lemma store_call_no_fault:
  "True \<notin> set (take (Suc n) (store_faults w)) \<Longrightarrow>
     store_call w = (False, w\<lparr>store_faults := tl (store_faults w)\<rparr>)
     \<and> True \<notin> set (take n (tl (store_faults w)))"
  by (cases "store_faults w") (auto simp: store_call_def)

lemma canvas_data_persisted:
  assumes "True \<notin> set (take (Suc n) (store_faults w))"
    and "find_room (toUpperCase R) (rooms_db w) = Some (i, r)"
  shows "on_canvas_data socket (JStr R) d w =
           w\<lparr>outbox := outbox w @ map (\<lambda>p. (p, CanvasData d)) (peersExcluding (toUpperCase R) socket w),
             store_faults := tl (store_faults w),
             rooms_db := (rooms_db w)[i := r\<lparr>canvasData := Some d\<rparr>]\<rparr>"
proof -
  let ?w1 = "socket_to_emit socket (toUpperCase R) (CanvasData d) w"
  have "True \<notin> set (take (Suc n) (store_faults ?w1))"
    using assms(1) by (simp add: socket_to_emit_def)
  from store_call_no_fault [OF this]
  have "store_call ?w1 = (False, ?w1\<lparr>store_faults := tl (store_faults ?w1)\<rparr>)" by simp
  then show ?thesis
    using assms(2) by (simp add: on_canvas_data_def Room_findOneAndUpdate_def socket_to_emit_def)
qed

lemma clear_canvas_persisted:
  assumes "True \<notin> set (take (Suc n) (store_faults w))"
  shows "on_clear_canvas socket (JStr R) w =
           w\<lparr>outbox := outbox w @ map (\<lambda>p. (p, ClearCanvas)) (peersExcluding (toUpperCase R) socket w),
             store_faults := tl (store_faults w),
             rooms_db := (case find_room (toUpperCase R) (rooms_db w) of
                            None \<Rightarrow> rooms_db w
                          | Some (i, r) \<Rightarrow> (rooms_db w)[i := r\<lparr>canvasData := Some []\<rparr>])\<rparr>"
proof -
  let ?w1 = "socket_to_emit socket (toUpperCase R) ClearCanvas w"
  have "True \<notin> set (take (Suc n) (store_faults ?w1))"
    using assms(1) by (simp add: socket_to_emit_def)
  from store_call_no_fault [OF this]
  have "store_call ?w1 = (False, ?w1\<lparr>store_faults := tl (store_faults ?w1)\<rparr>)" by simp
  then show ?thesis
    by (simp add: on_clear_canvas_def Room_findOneAndUpdate_def socket_to_emit_def
          split: option.splits)
qed

lemma join_room_outbox:
  "outbox (on_join_room socket (JStr R) w) =
     outbox w @
       (case store_call (socket_join socket (toUpperCase R) w) of
          (True, w') \<Rightarrow> []
        | (False, w') \<Rightarrow>
            (case find_room (toUpperCase R) (rooms_db w) of
               None \<Rightarrow> []
             | Some (i, r) \<Rightarrow>
                 (case canvasData r of
                    None \<Rightarrow> []
                  | Some d \<Rightarrow> if d \<noteq> [] then [(socket, CanvasData d)] else [])))"
proof -
  have db: "rooms_db (socket_join socket (toUpperCase R) w) = rooms_db w"
    and ob: "outbox (socket_join socket (toUpperCase R) w) = outbox w"
    by (simp_all add: socket_join_def)
  show ?thesis
    by (cases "socket_join socket (toUpperCase R) w" rule: store_call_cases)
       (simp_all add: on_join_room_def Room_findOne_def socket_emit_def console_error_def
          db ob split: option.splits)
qed

text \<open>
  C2.  Let the store have no fault in its next two operations.  When a canvas sync with
  image \<open>X\<close> for code \<open>R\<close> has been persisted (a room with the upper-cased code exists),
  the room holds \<open>X\<close>, and a connection that joins next under a code with the same
  upper-case form is delivered exactly one message, the canvas message with \<open>X\<close>,
  addressed to itself; if \<open>X\<close> is the empty string it is delivered nothing.  After a
  clear for \<open>R\<close>, a connection that joins next is delivered nothing.
\<close>

theorem snapshot_sent_to_joiner:
  assumes "True \<notin> set (take 2 (store_faults w))"
    and "toUpperCase R' = toUpperCase R"
  shows "(\<forall>i r. find_room (toUpperCase R) (rooms_db w) = Some (i, r) \<longrightarrow>
            find_room (toUpperCase R) (rooms_db (on_canvas_data a (JStr R) X w))
              = Some (i, r\<lparr>canvasData := Some X\<rparr>)
            \<and> emitted (on_canvas_data a (JStr R) X w)
                 (on_join_room b (JStr R') (on_canvas_data a (JStr R) X w))
              = (if X = [] then [] else [(b, CanvasData X)]))
       \<and> emitted (on_clear_canvas a (JStr R) w)
           (on_join_room b (JStr R') (on_clear_canvas a (JStr R) w)) = []"
proof -
  have nf: "True \<notin> set (take (Suc 1) (store_faults w))"
    using assms(1) by (simp add: numeral_2_eq_2)
  from store_call_no_fault [OF nf]
  have nf': "True \<notin> set (take (Suc 0) (tl (store_faults w)))" by simp
  have sync: "find_room (toUpperCase R) (rooms_db (on_canvas_data a (JStr R) X w))
              = Some (i, r\<lparr>canvasData := Some X\<rparr>)
            \<and> emitted (on_canvas_data a (JStr R) X w)
                 (on_join_room b (JStr R') (on_canvas_data a (JStr R) X w))
              = (if X = [] then [] else [(b, CanvasData X)])"
    if found: "find_room (toUpperCase R) (rooms_db w) = Some (i, r)" for i r
  proof -
    let ?w1 = "on_canvas_data a (JStr R) X w"
    have w1: "rooms_db ?w1 = (rooms_db w)[i := r\<lparr>canvasData := Some X\<rparr>]"
      "store_faults ?w1 = tl (store_faults w)"
      by (simp_all add: canvas_data_persisted [OF nf found])
    have "code (r\<lparr>canvasData := Some X\<rparr>) = toUpperCase R"
      using find_room_Some [OF found] by simp
    from find_room_update [OF found this]
    have look: "find_room (toUpperCase R) (rooms_db ?w1) = Some (i, r\<lparr>canvasData := Some X\<rparr>)"
      by (simp add: w1)
    let ?w2 = "socket_join b (toUpperCase R) ?w1"
    have "True \<notin> set (take (Suc 0) (store_faults ?w2))"
      using nf' by (simp add: socket_join_def w1)
    from store_call_no_fault [OF this]
    have "store_call ?w2 = (False, ?w2\<lparr>store_faults := tl (store_faults ?w2)\<rparr>)" by simp
    then have "outbox (on_join_room b (JStr R') ?w1)
                 = outbox ?w1 @ (if X = [] then [] else [(b, CanvasData X)])"
      using look by (simp add: join_room_outbox assms(2))
    with look show ?thesis by simp
  qed
  have clear: "emitted (on_clear_canvas a (JStr R) w)
           (on_join_room b (JStr R') (on_clear_canvas a (JStr R) w)) = []"
  proof -
    let ?w1 = "on_clear_canvas a (JStr R) w"
    have db: "rooms_db ?w1 = (case find_room (toUpperCase R) (rooms_db w) of
                            None \<Rightarrow> rooms_db w
                          | Some (i, r) \<Rightarrow> (rooms_db w)[i := r\<lparr>canvasData := Some []\<rparr>])"
      by (simp add: clear_canvas_persisted [OF nf])
    have look: "find_room (toUpperCase R) (rooms_db ?w1) = None
              \<or> (\<exists>i r. find_room (toUpperCase R) (rooms_db ?w1) = Some (i, r)
                        \<and> canvasData r = Some [])"
    proof (cases "find_room (toUpperCase R) (rooms_db w)")
      case None
      then show ?thesis by (simp add: db)
    next
      case (Some ir)
      obtain i r where ir: "ir = (i, r)" by (cases ir)
      have "code (r\<lparr>canvasData := Some []\<rparr>) = toUpperCase R"
        using find_room_Some [of "toUpperCase R" "rooms_db w" i r] Some ir by simp
      from find_room_update [OF _ this, of "rooms_db w" i r] Some ir
      show ?thesis by (simp add: db)
    qed
    have "outbox (on_join_room b (JStr R') ?w1) = outbox ?w1"
      using look unfolding join_room_outbox assms(2)
      by (cases "socket_join b (toUpperCase R) ?w1" rule: store_call_cases) auto
    then show ?thesis by (simp add: emitted_def)
  qed
  from sync clear show ?thesis by blast
qed

theorem snapshot_sent_to_joiner_witness:
  "True \<notin> set (take 2 (store_faults
       (initial_world\<lparr>rooms_db := [\<lparr>code = str ''R1'', room_name = str ''Team Sync'', creator = 1,
                                      members = [1], canvasData = None\<rparr>]\<rparr>)))
   \<and> toUpperCase (str ''R1'') = toUpperCase (str ''r1'')
   \<and> find_room (toUpperCase (str ''r1''))
        (rooms_db (initial_world\<lparr>rooms_db := [\<lparr>code = str ''R1'', room_name = str ''Team Sync'',
                      creator = 1, members = [1], canvasData = None\<rparr>]\<rparr>))
      = Some (0, \<lparr>code = str ''R1'', room_name = str ''Team Sync'', creator = 1,
                                      members = [1], canvasData = None\<rparr>)
   \<and> (str ''X'') \<noteq> []
   \<and> emitted (on_canvas_data 1 (JStr (str ''r1'')) (str ''X'')
        (initial_world\<lparr>rooms_db := [\<lparr>code = str ''R1'', room_name = str ''Team Sync'', creator = 1,
                                      members = [1], canvasData = None\<rparr>]\<rparr>))
       (on_join_room 2 (JStr (str ''R1'')) (on_canvas_data 1 (JStr (str ''r1'')) (str ''X'')
        (initial_world\<lparr>rooms_db := [\<lparr>code = str ''R1'', room_name = str ''Team Sync'', creator = 1,
                                      members = [1], canvasData = None\<rparr>]\<rparr>)))
      = [(2, CanvasData (str ''X''))]"
proof -
  let ?w = "initial_world\<lparr>rooms_db := [\<lparr>code = str ''R1'', room_name = str ''Team Sync'', creator = 1,
                                      members = [1], canvasData = None\<rparr>]\<rparr>"
  have h1: "True \<notin> set (take 2 (store_faults ?w))"
    by (simp add: initial_world_def)
  have h2: "toUpperCase (str ''R1'') = toUpperCase (str ''r1'')"
    by (simp add: upper_eval)
  have h3: "find_room (toUpperCase (str ''r1'')) (rooms_db ?w)
      = Some (0, \<lparr>code = str ''R1'', room_name = str ''Team Sync'', creator = 1,
                                      members = [1], canvasData = None\<rparr>)"
    by (simp add: upper_eval find_room_def initial_world_def)
  have h4: "(str ''X'') \<noteq> []" by (simp add: str_def)
  from snapshot_sent_to_joiner [OF h1 h2, where X = "(str ''X'')" and a = 1 and b = 2] h3 h4
  have "emitted (on_canvas_data 1 (JStr (str ''r1'')) (str ''X'') ?w)
       (on_join_room 2 (JStr (str ''R1'')) (on_canvas_data 1 (JStr (str ''r1'')) (str ''X'') ?w))
      = (if (str ''X'') = [] then [] else [(2, CanvasData (str ''X''))])"
    by blast
  then have "emitted (on_canvas_data 1 (JStr (str ''r1'')) (str ''X'') ?w)
       (on_join_room 2 (JStr (str ''R1'')) (on_canvas_data 1 (JStr (str ''r1'')) (str ''X'') ?w))
      = [(2, CanvasData (str ''X''))]"
    using h4 by simp
  with h1 h2 h3 h4 show ?thesis by blast
qed

section \<open>Normalisation of the room code on joining\<close>

lemma join_room_registers_upper:
  "socket \<in> set (adapter_rooms (on_join_room socket (JStr raw) w) (toUpperCase raw))
   \<and> (\<forall>r. r \<noteq> toUpperCase raw \<longrightarrow>
          adapter_rooms (on_join_room socket (JStr raw) w) r = adapter_rooms w r)"
  by (simp add: join_room_registry socket_join_def)

text \<open>
  C1.  The join handler upper-cases the room code and does not trim it.  In a world whose
  store holds room \<open>ABC123\<close> with a snapshot, connection 1 joins with \<open>ABC123\<close> and
  connection 2 with the same code in lower case between two spaces: connection 2 is
  registered under the code with its spaces, apart from connection 1, is sent no snapshot
  and is not reached by a stroke that connection 1 draws in \<open>ABC123\<close>.  Room
  verification, given the same code with its spaces, trims it and finds the room.  The
  trimmed and upper-cased code is \<open>ABC123\<close>.
\<close>

theorem join_room_code_not_trimmed:
  "adapter_rooms
     (on_join_room 2 (JStr (str '' abc123 '')) (on_join_room 1 (JStr (str ''ABC123''))
        (initial_world\<lparr>rooms_db := [\<lparr>code = str ''ABC123'', room_name = str ''Team Sync'',
             creator = 7, members = [7], canvasData = Some (str ''X'')\<rparr>]\<rparr>))) (str '' ABC123 '') = [2]
   \<and> adapter_rooms
     (on_join_room 2 (JStr (str '' abc123 '')) (on_join_room 1 (JStr (str ''ABC123''))
        (initial_world\<lparr>rooms_db := [\<lparr>code = str ''ABC123'', room_name = str ''Team Sync'',
             creator = 7, members = [7], canvasData = Some (str ''X'')\<rparr>]\<rparr>))) (str ''ABC123'') = [1]
   \<and> outbox
     (on_join_room 2 (JStr (str '' abc123 '')) (on_join_room 1 (JStr (str ''ABC123''))
        (initial_world\<lparr>rooms_db := [\<lparr>code = str ''ABC123'', room_name = str ''Team Sync'',
             creator = 7, members = [7], canvasData = Some (str ''X'')\<rparr>]\<rparr>))) = [(1, CanvasData (str ''X''))]
   \<and> emitted
     (on_join_room 2 (JStr (str '' abc123 '')) (on_join_room 1 (JStr (str ''ABC123''))
        (initial_world\<lparr>rooms_db := [\<lparr>code = str ''ABC123'', room_name = str ''Team Sync'',
             creator = 7, members = [7], canvasData = Some (str ''X'')\<rparr>]\<rparr>)))
     (on_drawing_data 1
        \<lparr>prevX = JNum 0, prevY = JNum 0, currentX = JNum 10, currentY = JNum 10,
         color = JStr (str ''#000''), size' = JNum 2, tool = JStr (str ''pen''), roomCode = JStr (str ''ABC123'')\<rparr>
        (on_join_room 2 (JStr (str '' abc123 '')) (on_join_room 1 (JStr (str ''ABC123''))
          (initial_world\<lparr>rooms_db := [\<lparr>code = str ''ABC123'', room_name = str ''Team Sync'',
             creator = 7, members = [7], canvasData = Some (str ''X'')\<rparr>]\<rparr>)))) = []
   \<and> fst (verify_room 9 (JStr (str '' abc123 ''))
        (initial_world\<lparr>rooms_db := [\<lparr>code = str ''ABC123'', room_name = str ''Team Sync'',
             creator = 7, members = [7], canvasData = Some (str ''X'')\<rparr>]\<rparr>))
      = Inr (200, RoomFound (str ''Team Sync'') (str ''ABC123'') 2)
   \<and> toUpperCase (trim (str '' abc123 '')) = (str ''ABC123'')
   \<and> toUpperCase (str '' abc123 '') = (str '' ABC123 '')"
  by (simp add: handler_eval upper_eval trim_def is_space_def verify_room_def Room_save_def)

section \<open>Room verification\<close>

lemma findOne_cases:
  obtains (fault) w' where "Room_findOne c w = (Inl StoreError, w')" "rooms_db w' = rooms_db w"
  | (found) w' where "Room_findOne c w = (Inr (find_room c (rooms_db w)), w')"
      "rooms_db w' = rooms_db w"
  by (cases w rule: store_call_cases) (auto simp: Room_findOne_def)

lemma save_cases:
  obtains (fault) w' where "Room_save i doc w = (Inl StoreError, w')" "rooms_db w' = rooms_db w"
  | (saved) w' where "Room_save i doc w = (Inr (), w')" "rooms_db w' = (rooms_db w)[i := doc]"
  by (cases w rule: store_call_cases) (auto simp: Room_save_def)

lemma find_all_frame: "rooms_db (snd (Room_find_all w)) = rooms_db w"
  by (cases w rule: store_call_cases) (auto simp: Room_find_all_def)

lemma verify_room_member_noop:
  assumes "find_room (toUpperCase (trim s)) (rooms_db w) = Some (i, r)"
    and "userId \<in> set (members r)"
  shows "rooms_db (snd (verify_room userId (JStr s) w)) = rooms_db w"
proof (cases "toUpperCase (trim s)" w rule: findOne_cases)
  case (fault w')
  then show ?thesis by (simp add: verify_room_def console_error_def)
next
  case (found w')
  then show ?thesis using assms by (simp add: verify_room_def)
qed

lemma verify_room_ok:
  assumes "verify_room userId rc w = (Inr (200, body), w1)"
  shows "\<exists>s i r. rc = JStr s
          \<and> find_room (toUpperCase (trim s)) (rooms_db w) = Some (i, r)
          \<and> (userId \<in> set (members r) \<longrightarrow> rooms_db w1 = rooms_db w)
          \<and> (userId \<notin> set (members r) \<longrightarrow>
               rooms_db w1 = (rooms_db w)[i := r\<lparr>members := members r @ [userId]\<rparr>])"
proof (cases rc)
  case (JStr s)
  have ne: "trim s \<noteq> []" using assms JStr by (auto simp: verify_room_def split: if_splits)
  show ?thesis
  proof (cases "toUpperCase (trim s)" w rule: findOne_cases)
    case (fault w')
    with assms JStr ne show ?thesis by (simp add: verify_room_def split: if_splits)
  next
    case (found w')
    show ?thesis
    proof (cases "find_room (toUpperCase (trim s)) (rooms_db w)")
      case None
      with assms JStr ne found show ?thesis
        by (auto simp: verify_room_def split: if_splits prod.splits sum.splits)
    next
      case (Some ir)
      obtain i r where ir: "ir = (i, r)" by (cases ir)
      show ?thesis
      proof (cases "userId \<in> set (members r)")
        case True
        with assms JStr ne found Some ir have "w1 = w'"
          by (simp add: verify_room_def split: if_splits)
        with found True Some ir JStr show ?thesis by simp
      next
        case False
        show ?thesis
        proof (cases i "r\<lparr>members := members r @ [userId]\<rparr>" w' rule: save_cases)
          case (fault w3)
          with assms JStr ne found Some ir False show ?thesis
            by (simp add: verify_room_def split: if_splits)
        next
          case (saved w3)
          with assms JStr ne found Some ir False have "w1 = w3"
            by (simp add: verify_room_def split: if_splits)
          with saved found False Some ir JStr show ?thesis by simp
        qed
      qed
    qed
  qed
qed (use assms in \<open>auto simp: verify_room_def split: if_splits\<close>)

lemma verify_room_succeeds:
  assumes "trim s \<noteq> []"
    and "find_room (toUpperCase (trim s)) (rooms_db w) = Some (i, r)"
    and "True \<notin> set (take 2 (store_faults w))"
  shows "fst (verify_room userId (JStr s) w) =
           Inr (200, RoomFound (room_name r) (code r)
                  (length (if userId \<in> set (members r) then members r
                           else members r @ [userId])))
       \<and> rooms_db (snd (verify_room userId (JStr s) w)) =
           (if userId \<in> set (members r) then rooms_db w
            else (rooms_db w)[i := r\<lparr>members := members r @ [userId]\<rparr>])"
proof -
  from assms(1) have s: "s \<noteq> []" by (auto simp: trim_def)
  have nf: "True \<notin> set (take (Suc 1) (store_faults w))"
    using assms(3) by (simp add: numeral_2_eq_2)
  let ?w1 = "w\<lparr>store_faults := tl (store_faults w)\<rparr>"
  from store_call_no_fault [OF nf]
  have call: "store_call w = (False, ?w1)"
    and nf1: "True \<notin> set (take (Suc 0) (store_faults ?w1))" by simp_all
  from call assms(2)
  have look: "Room_findOne (toUpperCase (trim s)) w = (Inr (Some (i, r)), ?w1)"
    by (simp add: Room_findOne_def)
  show ?thesis
  proof (cases "userId \<in> set (members r)")
    case True
    with s assms(1) look show ?thesis by (simp add: verify_room_def)
  next
    case False
    from store_call_no_fault [OF nf1]
    have "store_call ?w1 = (False, ?w1\<lparr>store_faults := tl (store_faults ?w1)\<rparr>)" by simp
    then have "Room_save i (r\<lparr>members := members r @ [userId]\<rparr>) ?w1 =
        (Inr (), ?w1\<lparr>store_faults := tl (store_faults ?w1),
                   rooms_db := (rooms_db w)[i := r\<lparr>members := members r @ [userId]\<rparr>]\<rparr>)"
      by (simp add: Room_save_def)
    with False s assms(1) look show ?thesis by (simp add: verify_room_def)
  qed
qed

text \<open>
  C5.  When the room code, trimmed and upper-cased, names a stored room and the store has
  no fault in its next two operations, room verification answers 200 with the name, the
  code and the member count of the room; if the user was among its members the Room
  collection is unchanged, and otherwise the user has been appended, once, to the members
  of that room and nothing else has changed.  A second verification with the same user
  and code, whatever the store does, leaves the Room collection as the first one left it.
  Conversely, every verification answered with 200 has found such a room and has had
  exactly this effect.
\<close>

theorem verify_room_add_member_idempotent:
  "(trim s \<noteq> [] \<and> find_room (toUpperCase (trim s)) (rooms_db w) = Some (i, r)
      \<and> True \<notin> set (take 2 (store_faults w)) \<longrightarrow>
      fst (verify_room userId (JStr s) w) =
           Inr (200, RoomFound (room_name r) (code r)
                  (length (if userId \<in> set (members r) then members r
                           else members r @ [userId])))
      \<and> rooms_db (snd (verify_room userId (JStr s) w)) =
           (if userId \<in> set (members r) then rooms_db w
            else (rooms_db w)[i := r\<lparr>members := members r @ [userId]\<rparr>])
      \<and> rooms_db (snd (verify_room userId (JStr s) (snd (verify_room userId (JStr s) w))))
           = rooms_db (snd (verify_room userId (JStr s) w)))
   \<and> (verify_room userId rc w = (Inr (200, body), w1) \<longrightarrow>
        (\<exists>s i r. rc = JStr s
          \<and> find_room (toUpperCase (trim s)) (rooms_db w) = Some (i, r)
          \<and> (userId \<in> set (members r) \<longrightarrow> rooms_db w1 = rooms_db w)
          \<and> (userId \<notin> set (members r) \<longrightarrow>
               rooms_db w1 = (rooms_db w)[i := r\<lparr>members := members r @ [userId]\<rparr>])
          \<and> (\<exists>r1. find_room (toUpperCase (trim s)) (rooms_db w1) = Some (i, r1)
                \<and> userId \<in> set (members r1))
          \<and> rooms_db (snd (verify_room userId rc w1)) = rooms_db w1))"
proof -
  have after: "\<exists>r1. find_room (toUpperCase (trim s)) (rooms_db w1) = Some (i, r1)
                \<and> userId \<in> set (members r1)"
    if found: "find_room (toUpperCase (trim s)) (rooms_db w) = Some (i, r)"
      and present: "userId \<in> set (members r) \<Longrightarrow> rooms_db w1 = rooms_db w"
      and absent: "userId \<notin> set (members r) \<Longrightarrow>
           rooms_db w1 = (rooms_db w)[i := r\<lparr>members := members r @ [userId]\<rparr>]"
    for s i r w1
  proof (cases "userId \<in> set (members r)")
    case True
    with found present show ?thesis by simp
  next
    case False
    have "code (r\<lparr>members := members r @ [userId]\<rparr>) = toUpperCase (trim s)"
      using find_room_Some [OF found] by simp
    from find_room_update [OF found this] absent [OF False] False
    show ?thesis by simp
  qed
  have success: "fst (verify_room userId (JStr s) w) =
           Inr (200, RoomFound (room_name r) (code r)
                  (length (if userId \<in> set (members r) then members r
                           else members r @ [userId])))
      \<and> rooms_db (snd (verify_room userId (JStr s) w)) =
           (if userId \<in> set (members r) then rooms_db w
            else (rooms_db w)[i := r\<lparr>members := members r @ [userId]\<rparr>])
      \<and> rooms_db (snd (verify_room userId (JStr s) (snd (verify_room userId (JStr s) w))))
           = rooms_db (snd (verify_room userId (JStr s) w))"
    if ne: "trim s \<noteq> []"
      and found: "find_room (toUpperCase (trim s)) (rooms_db w) = Some (i, r)"
      and nf: "True \<notin> set (take 2 (store_faults w))"
  proof -
    let ?w1 = "snd (verify_room userId (JStr s) w)"
    note first = verify_room_succeeds [OF ne found nf, of userId]
    from first have db: "rooms_db ?w1 =
           (if userId \<in> set (members r) then rooms_db w
            else (rooms_db w)[i := r\<lparr>members := members r @ [userId]\<rparr>])" by simp
    from after [OF found, of ?w1] db
    obtain r1 where r1: "find_room (toUpperCase (trim s)) (rooms_db ?w1) = Some (i, r1)"
      "userId \<in> set (members r1)" by auto
    have "rooms_db (snd (verify_room userId (JStr s) ?w1)) = rooms_db ?w1"
      by (rule verify_room_member_noop [OF r1])
    with first show ?thesis by simp
  qed
  have converse: "\<exists>s i r. rc = JStr s
          \<and> find_room (toUpperCase (trim s)) (rooms_db w) = Some (i, r)
          \<and> (userId \<in> set (members r) \<longrightarrow> rooms_db w1 = rooms_db w)
          \<and> (userId \<notin> set (members r) \<longrightarrow>
               rooms_db w1 = (rooms_db w)[i := r\<lparr>members := members r @ [userId]\<rparr>])
          \<and> (\<exists>r1. find_room (toUpperCase (trim s)) (rooms_db w1) = Some (i, r1)
                \<and> userId \<in> set (members r1))
          \<and> rooms_db (snd (verify_room userId rc w1)) = rooms_db w1"
    if ok: "verify_room userId rc w = (Inr (200, body), w1)"
  proof -
    from verify_room_ok [OF ok] obtain s i r where rc: "rc = JStr s"
      and found: "find_room (toUpperCase (trim s)) (rooms_db w) = Some (i, r)"
      and present: "userId \<in> set (members r) \<Longrightarrow> rooms_db w1 = rooms_db w"
      and absent: "userId \<notin> set (members r) \<Longrightarrow>
           rooms_db w1 = (rooms_db w)[i := r\<lparr>members := members r @ [userId]\<rparr>]"
      by blast
    from after [OF found present absent]
    obtain r1 where r1: "find_room (toUpperCase (trim s)) (rooms_db w1) = Some (i, r1)"
      "userId \<in> set (members r1)" by blast
    have again: "rooms_db (snd (verify_room userId rc w1)) = rooms_db w1"
      unfolding rc by (rule verify_room_member_noop [OF r1])
    from rc found present absent r1 again show ?thesis by blast
  qed
  from success converse show ?thesis by blast
qed

theorem verify_room_add_member_idempotent_witness:
  "fst (verify_room 2 (JStr (str '' c0de12 ''))
     (initial_world\<lparr>rooms_db := [\<lparr>code = str ''C0DE12'', room_name = str ''Team Sync'',
                                    creator = 1, members = [1], canvasData = None\<rparr>]\<rparr>))
   = Inr (200, RoomFound (str ''Team Sync'') (str ''C0DE12'') 2)
   \<and> rooms_db (snd (verify_room 2 (JStr (str '' c0de12 ''))
     (initial_world\<lparr>rooms_db := [\<lparr>code = str ''C0DE12'', room_name = str ''Team Sync'',
                                    creator = 1, members = [1], canvasData = None\<rparr>]\<rparr>)))
     = [\<lparr>code = str ''C0DE12'', room_name = str ''Team Sync'', creator = 1,
         members = [1, 2], canvasData = None\<rparr>]
   \<and> rooms_db (snd (verify_room 2 (JStr (str '' c0de12 ''))
        (snd (verify_room 2 (JStr (str '' c0de12 ''))
     (initial_world\<lparr>rooms_db := [\<lparr>code = str ''C0DE12'', room_name = str ''Team Sync'',
                                    creator = 1, members = [1], canvasData = None\<rparr>]\<rparr>)))))
     = [\<lparr>code = str ''C0DE12'', room_name = str ''Team Sync'', creator = 1,
         members = [1, 2], canvasData = None\<rparr>]"
proof -
  let ?r = "\<lparr>code = str ''C0DE12'', room_name = str ''Team Sync'',
                                    creator = 1, members = [1], canvasData = None\<rparr>"
  let ?w = "initial_world\<lparr>rooms_db := [?r]\<rparr>"
  have h1: "trim (str '' c0de12 '') \<noteq> []"
    by (simp add: trim_def is_space_def str_def)
  have h2: "find_room (toUpperCase (trim (str '' c0de12 ''))) (rooms_db ?w) = Some (0, ?r)"
    by (simp add: trim_def is_space_def upper_eval find_room_def initial_world_def)
  have h3: "True \<notin> set (take 2 (store_faults ?w))"
    by (simp add: initial_world_def)
  from verify_room_add_member_idempotent
    [where s = "str '' c0de12 ''" and w = ?w and i = 0 and r = ?r and userId = 2] h1 h2 h3
  have "fst (verify_room 2 (JStr (str '' c0de12 '')) ?w) =
           Inr (200, RoomFound (room_name ?r) (code ?r)
                  (length (if 2 \<in> set (members ?r) then members ?r else members ?r @ [2])))
      \<and> rooms_db (snd (verify_room 2 (JStr (str '' c0de12 '')) ?w)) =
           (if 2 \<in> set (members ?r) then rooms_db ?w
            else (rooms_db ?w)[0 := ?r\<lparr>members := members ?r @ [2]\<rparr>])
      \<and> rooms_db (snd (verify_room 2 (JStr (str '' c0de12 ''))
             (snd (verify_room 2 (JStr (str '' c0de12 '')) ?w))))
           = rooms_db (snd (verify_room 2 (JStr (str '' c0de12 '')) ?w))"
    by blast
  then show ?thesis by (simp add: initial_world_def)
qed


section \<open>Room creation\<close>

lemma nth_code_0: "nth_code rng 0 = fst (genRoomCode rng)"
  by (simp add: nth_code_def)

lemma nth_code_shift: "nth_code (snd (genRoomCode rng)) j = nth_code rng (Suc j)"
  by (simp add: nth_code_def genRoomCode_def ac_simps)

lemma code_loop_result:
  "code_loop attempts rng w = (Inr (c, existing, n), w1) \<Longrightarrow>
     attempts < n
     \<and> (attempts < 10 \<longrightarrow> n \<le> 10)
     \<and> rooms_db w1 = rooms_db w
     \<and> c = nth_code rng (n - attempts - 1)
     \<and> existing = find_room (toUpperCase c) (rooms_db w)
     \<and> (\<forall>j < n - attempts - 1. find_room (toUpperCase (nth_code rng j)) (rooms_db w) \<noteq> None)
     \<and> (existing \<noteq> None \<longrightarrow> 10 \<le> n)"
proof (induction attempts rng w rule: code_loop.induct)
  case (1 attempts rng w)
  show ?case
  proof (cases "toUpperCase (fst (genRoomCode rng))" w rule: findOne_cases)
    case (fault w')
    with "1.prems" show ?thesis by (simp add: code_loop.simps [of attempts rng w])
  next
    case (found w')
    let ?b = "find_room (toUpperCase (fst (genRoomCode rng))) (rooms_db w)"
    show ?thesis
    proof (cases "?b \<noteq> None \<and> attempts + 1 < 10")
      case True
      with found "1.prems"
      have rec: "code_loop (attempts + 1) (snd (genRoomCode rng)) w' = (Inr (c, existing, n), w1)"
        by (simp add: code_loop.simps [of attempts rng w])
      from "1.IH" [OF found(1) [symmetric] refl True rec]
      have ih: "attempts + 1 < n" "n \<le> 10" "rooms_db w1 = rooms_db w'"
        "c = nth_code (snd (genRoomCode rng)) (n - (attempts + 1) - 1)"
        "existing = find_room (toUpperCase c) (rooms_db w')"
        "\<forall>j < n - (attempts + 1) - 1.
            find_room (toUpperCase (nth_code (snd (genRoomCode rng)) j)) (rooms_db w') \<noteq> None"
        "existing \<noteq> None \<longrightarrow> 10 \<le> n"
        using True by simp_all
      from ih(1) have idx: "n - attempts - 1 = Suc (n - (attempts + 1) - 1)" by simp
      have early: "find_room (toUpperCase (nth_code rng j)) (rooms_db w) \<noteq> None"
        if "j < n - attempts - 1" for j
      proof (cases j)
        case 0
        with True show ?thesis by (simp add: nth_code_0)
      next
        case (Suc j')
        with that idx have "j' < n - (attempts + 1) - 1" by simp
        with ih(6) Suc show ?thesis by (simp add: nth_code_shift found(2))
      qed
      from ih idx early show ?thesis by (simp add: nth_code_shift found(2))
    next
      case False
      with found "1.prems"
      have "c = fst (genRoomCode rng)" "existing = ?b" "n = attempts + 1" "w1 = w'"
        by (auto simp: code_loop.simps [of attempts rng w] split: if_splits)
      with False found(2) show ?thesis by (auto simp: nth_code_0)
    qed
  qed
qed

lemma code_loop_frame: "rooms_db (snd (code_loop attempts rng w)) = rooms_db w"
proof (induction attempts rng w rule: code_loop.induct)
  case (1 attempts rng w)
  show ?case
  proof (cases "toUpperCase (fst (genRoomCode rng))" w rule: findOne_cases)
    case (fault w')
    then show ?thesis by (simp add: code_loop.simps [of attempts rng w])
  next
    case (found w')
    show ?thesis
    proof (cases "find_room (toUpperCase (fst (genRoomCode rng))) (rooms_db w) \<noteq> None
                  \<and> attempts + 1 < 10")
      case True
      from "1.IH" [OF found(1) [symmetric] refl True] True found
      show ?thesis by (simp add: code_loop.simps [of attempts rng w])
    next
      case False
      with found show ?thesis by (auto simp: code_loop.simps [of attempts rng w])
    qed
  qed
qed

lemma code_loop_exhausted:
  "attempts < 10 \<Longrightarrow> True \<notin> set (take (10 - attempts) (store_faults w)) \<Longrightarrow>
   \<forall>j < 10 - attempts. find_room (toUpperCase (nth_code rng j)) (rooms_db w) \<noteq> None \<Longrightarrow>
   fst (code_loop attempts rng w) =
     Inr (nth_code rng (9 - attempts),
          find_room (toUpperCase (nth_code rng (9 - attempts))) (rooms_db w), 10)"
proof (induction attempts rng w rule: code_loop.induct)
  case (1 attempts rng w)
  let ?w' = "w\<lparr>store_faults := tl (store_faults w)\<rparr>"
  let ?b = "find_room (toUpperCase (fst (genRoomCode rng))) (rooms_db w)"
  from "1.prems"(1) have "10 - attempts = Suc (9 - attempts)" by simp
  with "1.prems"(2) have "True \<notin> set (take (Suc (9 - attempts)) (store_faults w))" by simp
  from store_call_no_fault [OF this]
  have call: "store_call w = (False, ?w')"
    and rest: "True \<notin> set (take (9 - attempts) (tl (store_faults w)))" by simp_all
  from call have look: "Room_findOne (toUpperCase (fst (genRoomCode rng))) w = (Inr ?b, ?w')"
    by (simp add: Room_findOne_def)
  from "1.prems"(1,3) have first: "?b \<noteq> None" by (simp add: nth_code_0 [symmetric])
  show ?case
  proof (cases "attempts + 1 < 10")
    case True
    have more: "\<forall>j < 10 - (attempts + 1).
        find_room (toUpperCase (nth_code (snd (genRoomCode rng)) j)) (rooms_db ?w') \<noteq> None"
      using "1.prems"(3) by (simp add: nth_code_shift)
    have faults: "True \<notin> set (take (10 - (attempts + 1)) (store_faults ?w'))"
      using rest by simp
    from True first have cond: "?b \<noteq> None \<and> attempts + 1 < 10" by simp
    from "1.IH" [OF look [symmetric] refl cond True faults more]
    have "fst (code_loop (attempts + 1) (snd (genRoomCode rng)) ?w') =
       Inr (nth_code (snd (genRoomCode rng)) (9 - (attempts + 1)),
            find_room (toUpperCase (nth_code (snd (genRoomCode rng)) (9 - (attempts + 1))))
              (rooms_db ?w'), 10)" .
    moreover from True have "Suc (9 - (attempts + 1)) = 9 - attempts" by simp
    ultimately show ?thesis
      using look cond by (simp add: code_loop.simps [of attempts rng w] nth_code_shift)
  next
    case False
    with "1.prems"(1) have "attempts = 9" by simp
    with look show ?thesis by (simp add: code_loop.simps [of 9 rng w] nth_code_0)
  qed
qed

subsection \<open>The create-room handler\<close>

lemma insert_cases:
  obtains (fault) w' where "Room_insert doc w = (Inl StoreError, w')" "rooms_db w' = rooms_db w"
  | (duplicate) w' where "Room_insert doc w = (Inl DuplicateCode, w')" "rooms_db w' = rooms_db w"
  | (inserted) w' where "Room_insert doc w = (Inr (), w')" "rooms_db w' = rooms_db w @ [doc]"
  by (cases w rule: store_call_cases;
      cases "code doc \<in> set (map code (rooms_db w))") (auto simp: Room_insert_def)

lemma create_room_rejected:
  "\<not> truthy roomName \<or> (\<exists>s. roomName = JStr s \<and> trim s = []) \<Longrightarrow>
   create_room userId roomName rng w = (Inr (400, ErrorBody ''Room name is required''), w)"
  by (auto simp: create_room_def)

lemma create_room_created:
  assumes "create_room userId roomName rng w = (Inr (201, body), w2)"
  shows "\<exists>s c n w1. roomName = JStr s \<and> trim s \<noteq> []
           \<and> code_loop 0 rng w = (Inr (c, None, n), w1)
           \<and> body = RoomCreated (toUpperCase c) (trim s)
           \<and> rooms_db w2 = rooms_db w @
                [\<lparr>code = toUpperCase c, room_name = trim s, creator = userId,
                  members = [userId], canvasData = None\<rparr>]"
proof (cases roomName)
  case (JStr s)
  from assms JStr have ne: "s \<noteq> []" "trim s \<noteq> []"
    by (auto simp: create_room_def split: if_splits)
  obtain res w1 where loop: "code_loop 0 rng w = (res, w1)" by (cases "code_loop 0 rng w")
  show ?thesis
  proof (cases res)
    case (Inl e)
    with assms JStr ne loop show ?thesis by (simp add: create_room_def)
  next
    case (Inr t)
    obtain c existing n where t: "t = (c, existing, n)" by (cases t)
    show ?thesis
    proof (cases existing)
      case None
      from code_loop_frame [of 0 rng w] loop have db1: "rooms_db w1 = rooms_db w" by simp
      let ?doc = "\<lparr>code = toUpperCase c, room_name = trim s, creator = userId,
                  members = [userId], canvasData = None\<rparr>"
      show ?thesis
      proof (cases ?doc w1 rule: insert_cases)
        case (fault w')
        with assms JStr ne loop Inr t None show ?thesis by (simp add: create_room_def)
      next
        case (duplicate w')
        with assms JStr ne loop Inr t None show ?thesis by (simp add: create_room_def)
      next
        case (inserted w')
        with assms JStr ne loop Inr t None have "w2 = w'" "body = RoomCreated (toUpperCase c) (trim s)"
          by (simp_all add: create_room_def)
        with inserted JStr ne loop Inr t None db1 show ?thesis by simp
      qed
    next
      case (Some a)
      with assms JStr ne loop Inr t show ?thesis by (simp add: create_room_def)
    qed
  qed
qed (use assms in \<open>auto simp: create_room_def split: if_splits\<close>)

text \<open>
  C4.  The code loop of room creation, entered with no attempt made, ends after at least
  one and at most ten attempts; it only reads the Room collection; every attempt before
  the last one hit a stored room; what it reports as found is what the collection holds
  under the upper-cased last code; and it reports a stored room only after the tenth
  attempt.  A room creation answered with 201 returns a code under which the collection
  held no room.  When the store has no fault and each of the first ten generated codes is
  taken, room creation answers 500 with the message that no unique code could be generated,
  and the collection is unchanged.
\<close>

theorem create_room_code_allocation:
  "(code_loop 0 rng w = (Inr (c, existing, n), w1) \<longrightarrow>
       1 \<le> n \<and> n \<le> 10 \<and> rooms_db w1 = rooms_db w \<and> c = nth_code rng (n - 1)
       \<and> existing = find_room (toUpperCase c) (rooms_db w)
       \<and> (\<forall>j < n - 1. find_room (toUpperCase (nth_code rng j)) (rooms_db w) \<noteq> None)
       \<and> (existing \<noteq> None \<longrightarrow> n = 10))
   \<and> (create_room userId roomName rng w = (Inr (201, RoomCreated c' name), w2) \<longrightarrow>
       find_room c' (rooms_db w) = None
       \<and> (\<exists>j < 10. c' = toUpperCase (nth_code rng j)))
   \<and> ((\<exists>s. roomName = JStr s \<and> trim s \<noteq> [])
        \<and> True \<notin> set (take 10 (store_faults w))
        \<and> (\<forall>j < 10. find_room (toUpperCase (nth_code rng j)) (rooms_db w) \<noteq> None) \<longrightarrow>
       fst (create_room userId roomName rng w)
         = Inr (500, ErrorBody ''Failed to generate unique room code'')
       \<and> rooms_db (snd (create_room userId roomName rng w)) = rooms_db w)"
proof -
  have loop: "1 \<le> n \<and> n \<le> 10 \<and> rooms_db w1 = rooms_db w \<and> c = nth_code rng (n - 1)
       \<and> existing = find_room (toUpperCase c) (rooms_db w)
       \<and> (\<forall>j < n - 1. find_room (toUpperCase (nth_code rng j)) (rooms_db w) \<noteq> None)
       \<and> (existing \<noteq> None \<longrightarrow> n = 10)"
    if "code_loop 0 rng w = (Inr (c, existing, n), w1)"
    using code_loop_result [OF that] by auto
  have created: "find_room c' (rooms_db w) = None
       \<and> (\<exists>j < 10. c' = toUpperCase (nth_code rng j))"
    if "create_room userId roomName rng w = (Inr (201, RoomCreated c' name), w2)"
  proof -
    from create_room_created [OF that] obtain c0 n w1
      where l: "code_loop 0 rng w = (Inr (c0, None, n), w1)" and c': "c' = toUpperCase c0"
      by auto
    note r = code_loop_result [OF l]
    from r have n: "0 < n" "n \<le> 10" by simp_all
    from r have c0: "c0 = nth_code rng (n - 1)" by simp
    from r have "None = find_room (toUpperCase c0) (rooms_db w)" by (elim conjE)
    then have free: "find_room c' (rooms_db w) = None" unfolding c' by (rule sym)
    from n have "n - 1 < 10" by simp
    moreover have "c' = toUpperCase (nth_code rng (n - 1))" unfolding c' c0 by (rule refl)
    ultimately have "\<exists>j < 10. c' = toUpperCase (nth_code rng j)" by blast
    with free have "find_room c' (rooms_db w) = None
       \<and> (\<exists>j < 10. c' = toUpperCase (nth_code rng j))" by (rule conjI)
    then show ?thesis .
  qed
  have exhausted: "fst (create_room userId roomName rng w)
         = Inr (500, ErrorBody ''Failed to generate unique room code'')
       \<and> rooms_db (snd (create_room userId roomName rng w)) = rooms_db w"
    if name: "\<exists>s. roomName = JStr s \<and> trim s \<noteq> []"
      and nf: "True \<notin> set (take 10 (store_faults w))"
      and taken: "\<forall>j < 10. find_room (toUpperCase (nth_code rng j)) (rooms_db w) \<noteq> None"
  proof -
    from name obtain s where s: "roomName = JStr s" "trim s \<noteq> []" by blast
    then have s': "s \<noteq> []" by (auto simp: trim_def)
    obtain res w1 where l: "code_loop 0 rng w = (res, w1)" by (cases "code_loop 0 rng w")
    from code_loop_exhausted [of 0 w rng] nf taken l
    have res: "res = Inr (nth_code rng 9, find_room (toUpperCase (nth_code rng 9)) (rooms_db w), 10)"
      by simp
    from taken have "find_room (toUpperCase (nth_code rng 9)) (rooms_db w) \<noteq> None" by simp
    with s s' l res have "create_room userId roomName rng w
        = (Inr (500, ErrorBody ''Failed to generate unique room code''), w1)"
      by (simp add: create_room_def)
    moreover from code_loop_frame [of 0 rng w] l have "rooms_db w1 = rooms_db w" by simp
    ultimately show ?thesis by simp
  qed
  from loop created exhausted show ?thesis by blast
qed

theorem create_room_code_allocation_witness:
  "(\<exists>s. JStr (str ''Team Sync'') = JStr s \<and> trim s \<noteq> [])
   \<and> True \<notin> set (take 10 (store_faults
        (initial_world\<lparr>rooms_db := [\<lparr>code = str ''AAAAAA'', room_name = str ''Old'', creator = 1,
                                       members = [1], canvasData = None\<rparr>]\<rparr>)))
   \<and> fst (create_room 2 (JStr (str ''Team Sync'')) (\<lambda>k. 0)
        (initial_world\<lparr>rooms_db := [\<lparr>code = str ''AAAAAA'', room_name = str ''Old'', creator = 1,
                                       members = [1], canvasData = None\<rparr>]\<rparr>))
      = Inr (500, ErrorBody ''Failed to generate unique room code'')
   \<and> create_room 2 (JStr (str ''Team Sync'')) (\<lambda>k. 1 / 2)
        (initial_world\<lparr>rooms_db := [\<lparr>code = str ''AAAAAA'', room_name = str ''Old'', creator = 1,
                                       members = [1], canvasData = None\<rparr>]\<rparr>)
      = (Inr (201, RoomCreated (str ''SSSSSS'') (str ''Team Sync'')),
         initial_world\<lparr>rooms_db := [\<lparr>code = str ''AAAAAA'', room_name = str ''Old'', creator = 1,
                                       members = [1], canvasData = None\<rparr>,
                                      \<lparr>code = str ''SSSSSS'', room_name = str ''Team Sync'', creator = 2,
                                       members = [2], canvasData = None\<rparr>]\<rparr>)
   \<and> find_room (str ''SSSSSS'')
        (rooms_db (initial_world\<lparr>rooms_db := [\<lparr>code = str ''AAAAAA'', room_name = str ''Old'',
            creator = 1, members = [1], canvasData = None\<rparr>]\<rparr>)) = None"
proof -
  let ?w = "initial_world\<lparr>rooms_db := [\<lparr>code = str ''AAAAAA'', room_name = str ''Old'', creator = 1,
                                       members = [1], canvasData = None\<rparr>]\<rparr>"
  have h1: "\<exists>s. JStr (str ''Team Sync'') = JStr s \<and> trim s \<noteq> []"
    by (simp add: trim_def is_space_def str_def)
  have h2: "True \<notin> set (take 10 (store_faults ?w))"
    by (simp add: initial_world_def)
  have h3: "\<forall>j < 10. find_room (toUpperCase (nth_code (\<lambda>k. 0) j)) (rooms_db ?w) \<noteq> None"
    by (simp add: nth_code_def genRoomCode_constant upper_eval find_room_def initial_world_def)
  have h4: "create_room 2 (JStr (str ''Team Sync'')) (\<lambda>k. 1 / 2) ?w
      = (Inr (201, RoomCreated (str ''SSSSSS'') (str ''Team Sync'')),
         initial_world\<lparr>rooms_db := [\<lparr>code = str ''AAAAAA'', room_name = str ''Old'', creator = 1,
                                       members = [1], canvasData = None\<rparr>,
                                      \<lparr>code = str ''SSSSSS'', room_name = str ''Team Sync'', creator = 2,
                                       members = [2], canvasData = None\<rparr>]\<rparr>)"
    by (simp add: http_eval upper_eval code_loop.simps [of 0 "\<lambda>k. 1 / 2"] genRoomCode_constant)
  from create_room_code_allocation [of "\<lambda>k. 0" ?w _ _ _ _ 2 "JStr (str ''Team Sync'')"] h1 h2 h3
  have a: "fst (create_room 2 (JStr (str ''Team Sync'')) (\<lambda>k. 0) ?w)
      = Inr (500, ErrorBody ''Failed to generate unique room code'')"
    by blast
  from create_room_code_allocation [of "\<lambda>k. 1 / 2" ?w _ _ _ _ 2 "JStr (str ''Team Sync'')" "(str ''SSSSSS'')" "(str ''Team Sync'')"] h4
  have b: "find_room (str ''SSSSSS'') (rooms_db ?w) = None"
    by blast
  from h1 h2 h4 a b show ?thesis by blast
qed

section \<open>Trimming of the room name\<close>

lemma trim_empty_iff: "trim s = [] \<longleftrightarrow> (\<forall>c \<in> set s. is_space c)"
proof
  assume "trim s = []"
  then have "dropWhile is_space (rev (dropWhile is_space s)) = []"
    unfolding trim_def by (simp only: rev_is_Nil_conv)
  then have "\<forall>c \<in> set (dropWhile is_space s). is_space c"
    by (simp only: dropWhile_eq_Nil_conv set_rev)
  moreover have "dropWhile is_space s \<noteq> [] \<Longrightarrow> \<not> is_space (hd (dropWhile is_space s))"
    by (rule hd_dropWhile)
  ultimately have "dropWhile is_space s = []"
    using hd_in_set [of "dropWhile is_space s"] by blast
  then show "\<forall>c \<in> set s. is_space c" by (simp only: dropWhile_eq_Nil_conv)
next
  assume "\<forall>c \<in> set s. is_space c"
  then have "dropWhile is_space s = []" by (simp only: dropWhile_eq_Nil_conv)
  then show "trim s = []" by (simp only: trim_def rev.simps dropWhile.simps)
qed

lemma rev_dropWhile_split:
  "xs = rev (dropWhile P (rev xs)) @ rev (takeWhile P (rev xs))"
proof -
  have "rev xs = takeWhile P (rev xs) @ dropWhile P (rev xs)" by simp
  then have "rev (rev xs) = rev (takeWhile P (rev xs) @ dropWhile P (rev xs))"
    by (rule arg_cong)
  then show ?thesis by (simp only: rev_rev_ident rev_append)
qed

lemma trim_decompose:
  "\<exists>a b. s = a @ trim s @ b \<and> (\<forall>c \<in> set a. is_space c) \<and> (\<forall>c \<in> set b. is_space c)"
proof -
  let ?t = "dropWhile is_space s"
  let ?a = "takeWhile is_space s"
  let ?b = "rev (takeWhile is_space (rev ?t))"
  have t: "?t = trim s @ ?b"
    unfolding trim_def by (rule rev_dropWhile_split)
  have "s = ?a @ ?t" by simp
  with t have "s = ?a @ trim s @ ?b" by simp
  moreover have "\<forall>c \<in> set ?a. is_space c" by (auto dest: set_takeWhileD)
  moreover have "\<forall>c \<in> set ?b. is_space c" by (auto dest: set_takeWhileD)
  ultimately show ?thesis by blast
qed

lemma trim_ends:
  assumes "trim s \<noteq> []"
  shows "\<not> is_space (hd (trim s)) \<and> \<not> is_space (last (trim s))"
proof -
  let ?t = "dropWhile is_space s"
  let ?u = "dropWhile is_space (rev ?t)"
  from assms have u: "?u \<noteq> []" by (simp add: trim_def)
  then have "\<not> is_space (hd ?u)" by (rule hd_dropWhile)
  with u have l: "\<not> is_space (last (trim s))" by (simp add: trim_def last_rev)
  have t: "?t = trim s @ rev (takeWhile is_space (rev ?t))"
    unfolding trim_def by (rule rev_dropWhile_split)
  with assms have "?t \<noteq> []" by (metis Nil_is_append_conv)
  then have "\<not> is_space (hd ?t)" by (rule hd_dropWhile)
  moreover from t assms have "hd ?t = hd (trim s)" by (metis hd_append2)
  ultimately show ?thesis using l by simp
qed

lemma create_room_succeeds:
  assumes "trim s \<noteq> []"
    and "find_room (toUpperCase (nth_code rng 0)) (rooms_db w) = None"
    and "True \<notin> set (take 2 (store_faults w))"
  shows "fst (create_room userId (JStr s) rng w)
           = Inr (201, RoomCreated (toUpperCase (nth_code rng 0)) (trim s))
       \<and> rooms_db (snd (create_room userId (JStr s) rng w)) = rooms_db w @
            [\<lparr>code = toUpperCase (nth_code rng 0), room_name = trim s, creator = userId,
              members = [userId], canvasData = None\<rparr>]"
proof -
  from assms(1) have s: "s \<noteq> []" by (auto simp: trim_def)
  have nf: "True \<notin> set (take (Suc 1) (store_faults w))"
    using assms(3) by (simp add: numeral_2_eq_2)
  let ?w1 = "w\<lparr>store_faults := tl (store_faults w)\<rparr>"
  let ?c = "fst (genRoomCode rng)"
  let ?doc = "\<lparr>code = toUpperCase ?c, room_name = trim s, creator = userId,
              members = [userId], canvasData = None\<rparr>"
  from store_call_no_fault [OF nf]
  have call: "store_call w = (False, ?w1)"
    and nf1: "True \<notin> set (take (Suc 0) (store_faults ?w1))" by simp_all
  from assms(2) have free: "find_room (toUpperCase ?c) (rooms_db w) = None"
    by (simp add: nth_code_0)
  with call have "Room_findOne (toUpperCase ?c) w = (Inr None, ?w1)"
    by (simp add: Room_findOne_def)
  then have loop: "code_loop 0 rng w = (Inr (?c, None, 1), ?w1)"
    by (simp add: code_loop.simps [of 0 rng w])
  from free have fresh: "toUpperCase ?c \<notin> set (map code (rooms_db w))"
    by (simp add: find_room_None)
  from store_call_no_fault [OF nf1]
  have "store_call ?w1 = (False, ?w1\<lparr>store_faults := tl (store_faults ?w1)\<rparr>)" by simp
  with fresh have "Room_insert ?doc ?w1 =
      (Inr (), ?w1\<lparr>store_faults := tl (store_faults ?w1), rooms_db := rooms_db w @ [?doc]\<rparr>)"
    by (simp add: Room_insert_def)
  with s assms(1) loop show ?thesis by (simp add: create_room_def nth_code_0)
qed

text \<open>
  C10.  Room creation with a room name that is missing or otherwise falsy, or is a string
  of white space only, answers 400 and leaves the world as it was.  Room creation
  answered with 201 was given a string as room name; the name in the answer and the name
  of the one room appended to the collection are both the trimmed string, which is the
  string without the white space at its two ends; the user is creator and only member of
  the new room.  And a room name with something other than white space in it is
  accepted: when the first generated code is free and the store has no fault in its next
  two operations, the answer is 201 with that code and the trimmed name, and the room is
  stored under the trimmed name.
\<close>

theorem create_room_trims_room_name:
  "(\<not> truthy roomName \<or> (\<exists>s. roomName = JStr s \<and> (\<forall>c \<in> set s. is_space c)) \<longrightarrow>
      create_room userId roomName rng w = (Inr (400, ErrorBody ''Room name is required''), w))
   \<and> (create_room userId roomName rng w = (Inr (201, body), w') \<longrightarrow>
      (\<exists>s c a b. roomName = JStr s
         \<and> body = RoomCreated c (trim s)
         \<and> rooms_db w' = rooms_db w @
              [\<lparr>code = c, room_name = trim s, creator = userId, members = [userId],
                canvasData = None\<rparr>]
         \<and> s = a @ trim s @ b
         \<and> (\<forall>x \<in> set a. is_space x) \<and> (\<forall>x \<in> set b. is_space x)
         \<and> \<not> is_space (hd (trim s)) \<and> \<not> is_space (last (trim s))))
   \<and> ((\<exists>x \<in> set t. \<not> is_space x)
        \<and> find_room (toUpperCase (nth_code rng 0)) (rooms_db w) = None
        \<and> True \<notin> set (take 2 (store_faults w)) \<longrightarrow>
      fst (create_room userId (JStr t) rng w)
           = Inr (201, RoomCreated (toUpperCase (nth_code rng 0)) (trim t))
      \<and> rooms_db (snd (create_room userId (JStr t) rng w)) = rooms_db w @
            [\<lparr>code = toUpperCase (nth_code rng 0), room_name = trim t, creator = userId,
              members = [userId], canvasData = None\<rparr>])"
proof -
  have rejected: "create_room userId roomName rng w
      = (Inr (400, ErrorBody ''Room name is required''), w)"
    if "\<not> truthy roomName \<or> (\<exists>s. roomName = JStr s \<and> (\<forall>c \<in> set s. is_space c))"
  proof (rule create_room_rejected)
    from that show "\<not> truthy roomName \<or> (\<exists>s. roomName = JStr s \<and> trim s = [])"
      by (auto simp: trim_empty_iff)
  qed
  have accepted: "\<exists>s c a b. roomName = JStr s
         \<and> body = RoomCreated c (trim s)
         \<and> rooms_db w' = rooms_db w @
              [\<lparr>code = c, room_name = trim s, creator = userId, members = [userId],
                canvasData = None\<rparr>]
         \<and> s = a @ trim s @ b
         \<and> (\<forall>x \<in> set a. is_space x) \<and> (\<forall>x \<in> set b. is_space x)
         \<and> \<not> is_space (hd (trim s)) \<and> \<not> is_space (last (trim s))"
    if "create_room userId roomName rng w = (Inr (201, body), w')"
  proof -
    from create_room_created [OF that] obtain s c0
      where s: "roomName = JStr s" "trim s \<noteq> []"
        and body: "body = RoomCreated (toUpperCase c0) (trim s)"
        and db: "rooms_db w' = rooms_db w @
                [\<lparr>code = toUpperCase c0, room_name = trim s, creator = userId,
                  members = [userId], canvasData = None\<rparr>]"
      by blast
    from trim_decompose [of s] obtain a b
      where ab: "s = a @ trim s @ b" "\<forall>x \<in> set a. is_space x" "\<forall>x \<in> set b. is_space x"
      by blast
    from trim_ends [OF s(2)] s(1) body db ab show ?thesis by blast
  qed
  have created: "fst (create_room userId (JStr t) rng w)
           = Inr (201, RoomCreated (toUpperCase (nth_code rng 0)) (trim t))
      \<and> rooms_db (snd (create_room userId (JStr t) rng w)) = rooms_db w @
            [\<lparr>code = toUpperCase (nth_code rng 0), room_name = trim t, creator = userId,
              members = [userId], canvasData = None\<rparr>]"
    if "\<exists>x \<in> set t. \<not> is_space x"
      and "find_room (toUpperCase (nth_code rng 0)) (rooms_db w) = None"
      and "True \<notin> set (take 2 (store_faults w))"
  proof (rule create_room_succeeds)
    from that(1) show "trim t \<noteq> []" by (simp add: trim_empty_iff)
  qed (use that in simp_all)
  from rejected accepted created show ?thesis by blast
qed

theorem create_room_trims_room_name_witness:
  "create_room 2 (JStr (0xA0 # str ''  '' @ [0x3000])) (\<lambda>k. 1 / 2) initial_world
      = (Inr (400, ErrorBody ''Room name is required''), initial_world)
   \<and> create_room 2 JUndefined (\<lambda>k. 1 / 2) initial_world
      = (Inr (400, ErrorBody ''Room name is required''), initial_world)
   \<and> fst (create_room 2 (JStr (0xA0 # str '' Team Sync '' @ [0x3000])) (\<lambda>k. 1 / 2)
           initial_world)
      = Inr (201, RoomCreated (str ''SSSSSS'') (str ''Team Sync''))
   \<and> rooms_db (snd (create_room 2 (JStr (0xA0 # str '' Team Sync '' @ [0x3000]))
           (\<lambda>k. 1 / 2) initial_world))
      = [\<lparr>code = str ''SSSSSS'', room_name = str ''Team Sync'', creator = 2, members = [2],
          canvasData = None\<rparr>]"
proof -
  let ?blank = "0xA0 # str ''  '' @ [0x3000]"
  let ?name = "0xA0 # str '' Team Sync '' @ [0x3000]"
  have h1: "\<not> truthy (JStr ?blank) \<or> (\<exists>s. JStr ?blank = JStr s \<and> (\<forall>c \<in> set s. is_space c))"
    by (simp add: is_space_def str_def)
  have h2: "\<not> truthy JUndefined \<or> (\<exists>s. JUndefined = JStr s \<and> (\<forall>c \<in> set s. is_space c))"
    by simp
  have h3: "\<exists>x \<in> set ?name. \<not> is_space x" by (simp add: is_space_def str_def)
  have h4: "find_room (toUpperCase (nth_code (\<lambda>k. 1 / 2) 0)) (rooms_db initial_world) = None"
    by (simp add: find_room_def initial_world_def)
  have h5: "True \<notin> set (take 2 (store_faults initial_world))"
    by (simp add: initial_world_def)
  have v: "toUpperCase (nth_code (\<lambda>k. 1 / 2) 0) = str ''SSSSSS''"
    "trim ?name = str ''Team Sync''"
    by (simp_all add: nth_code_def genRoomCode_constant upper_eval trim_def is_space_def)
  from create_room_trims_room_name [where roomName = "JStr ?blank" and userId = 2
      and rng = "\<lambda>k. 1 / 2" and w = initial_world] h1
  have a: "create_room 2 (JStr ?blank) (\<lambda>k. 1 / 2) initial_world
      = (Inr (400, ErrorBody ''Room name is required''), initial_world)" by blast
  from create_room_trims_room_name [where roomName = JUndefined and userId = 2
      and rng = "\<lambda>k. 1 / 2" and w = initial_world] h2
  have b: "create_room 2 JUndefined (\<lambda>k. 1 / 2) initial_world
      = (Inr (400, ErrorBody ''Room name is required''), initial_world)" by blast
  from create_room_trims_room_name [where t = ?name and userId = 2
      and rng = "\<lambda>k. 1 / 2" and w = initial_world] h3 h4 h5
  have c: "fst (create_room 2 (JStr ?name) (\<lambda>k. 1 / 2) initial_world)
           = Inr (201, RoomCreated (toUpperCase (nth_code (\<lambda>k. 1 / 2) 0)) (trim ?name))
      \<and> rooms_db (snd (create_room 2 (JStr ?name) (\<lambda>k. 1 / 2) initial_world))
          = rooms_db initial_world @
            [\<lparr>code = toUpperCase (nth_code (\<lambda>k. 1 / 2) 0), room_name = trim ?name,
              creator = 2, members = [2], canvasData = None\<rparr>]"
    by blast
  from a b c show ?thesis by (simp add: v initial_world_def)
qed


end
